theory Spec2Isabelle
  imports Complex_Main "HOL-Library.Sublist"
begin

section \<open>Typing speed test game: the model of main.js\<close>

text \<open>
  The script keeps its state in module-level variables and in the page (the text of
  elements, the value of the input field), and runs only inside event handlers. The model
  is one record for that state and one function per function of the script, each taking
  the state and returning the updated one. What the browser decides (the random number,
  the clock, which event comes next) is an argument.

  Strings are HOL strings; \<open>toLowerCase\<close> and the JSON text of the score store are
  modelled on ASCII.
\<close>

subsection \<open>Platform functions on strings\<close>

definition toLowerCaseChar :: "char \<Rightarrow> char" where
  "toLowerCaseChar c =
     (let n = (of_char c :: nat) in if 65 \<le> n \<and> n \<le> 90 then char_of (n + 32) else c)"

definition toLowerCase :: "string \<Rightarrow> string" where
  "toLowerCase s = map toLowerCaseChar s"

text \<open>\<open>a.startsWith(b)\<close>\<close>

definition startsWith :: "string \<Rightarrow> string \<Rightarrow> bool" where
  "startsWith a b = prefix b a"

text \<open>\<open>s.slice(0, -1)\<close>: the string without its last character (empty stays empty).\<close>

definition slice_0_minus1 :: "string \<Rightarrow> string" where
  "slice_0_minus1 s = butlast s"

text \<open>\<open>xs.indexOf(x)\<close>: the first index of \<open>x\<close>, or \<open>-1\<close>.\<close>

fun indexOf :: "'a list \<Rightarrow> 'a \<Rightarrow> int" where
  "indexOf [] x = -1"
| "indexOf (y # ys) x = (if y = x then 0 else (let i = indexOf ys x in if i < 0 then -1 else i + 1))"

text \<open>
  \<open>xs.splice(start, 1)\<close> as a function of the list: a negative start counts from the
  end, a start beyond the end removes nothing.
\<close>

definition splice1 :: "int \<Rightarrow> 'a list \<Rightarrow> 'a list" where
  "splice1 start xs =
     (let len = int (length xs);
          k = nat (if start < 0 then max (len + start) 0 else min start len)
      in take k xs @ drop (Suc k) xs)"

text \<open>\<open>xs[i]\<close>: \<open>undefined\<close> (here \<open>None\<close>) outside the list.\<close>

definition at_index :: "'a list \<Rightarrow> int \<Rightarrow> 'a option" where
  "at_index xs i = (if 0 \<le> i \<and> i < int (length xs) then Some (xs ! nat i) else None)"

text \<open>Decimal text of an integer, as \<open>String(n)\<close> and \<open>JSON.stringify(n)\<close> give it.\<close>

definition digit_char :: "nat \<Rightarrow> char" where
  "digit_char d = char_of (48 + d)"

fun show_nat :: "nat \<Rightarrow> string" where
  "show_nat n = (if n < 10 then [digit_char n] else show_nat (n div 10) @ [digit_char (n mod 10)])"

declare show_nat.simps [simp del]

definition show_int :: "int \<Rightarrow> string" where
  "show_int i = (if i < 0 then CHR ''-'' # show_nat (nat (- i)) else show_nat (nat i))"

subsection \<open>Word bank\<close>

datatype level = Easy | Normal | Hard

fun level_name :: "level \<Rightarrow> string" where
  "level_name Easy = ''Easy''"
| "level_name Normal = ''Normal''"
| "level_name Hard = ''Hard''"

fun wordsByLevel :: "level \<Rightarrow> string list" where
  "wordsByLevel Easy =
     [''Hello'', ''Code'', ''Town'', ''Test'', ''Work'', ''Play'',
      ''Run'', ''Jump'', ''Fast'', ''Slow'', ''Good'', ''Nice'',
      ''Cool'', ''Game'', ''Time'', ''Word'', ''Type'', ''Keys'',
      ''News'', ''Data'', ''File'', ''Save'', ''Open'', ''Exit'',
      ''Help'', ''Menu'', ''Start'', ''Stop'', ''Find'', ''Edit'']"
| "wordsByLevel Normal =
     [''Programming'', ''Javascript'', ''Country'', ''Testing'',
      ''Youtube'', ''Linkedin'', ''Twitter'', ''Github'',
      ''Leetcode'', ''Internet'', ''Python'', ''Coding'',
      ''Funny'', ''Working'', ''Task'', ''Runner'',
      ''Roles'', ''Playing'', ''Document'', ''Function'',
      ''Variable'', ''Console'', ''Browser'', ''Website'',
      ''Database'', ''Network'', ''Server'', ''Client'',
      ''Framework'', ''Library'', ''Package'', ''Module'']"
| "wordsByLevel Hard =
     [''Destructuring'', ''Paradigm'', ''Documentation'',
      ''Dependencies'', ''Asynchronous'', ''Synchronization'',
      ''Encapsulation'', ''Polymorphism'', ''Inheritance'',
      ''Abstraction'', ''Algorithm'', ''Optimization'',
      ''Authentication'', ''Authorization'', ''Implementation'',
      ''Configuration'', ''Initialization'', ''Serialization'',
      ''Deserialization'', ''Refactoring'', ''Architecture'',
      ''Infrastructure'', ''Methodology'', ''Cryptocurrency'',
      ''Decentralization'', ''Functionality'', ''Compatibility'',
      ''Accessibility'', ''Responsiveness'', ''Performance'']"

fun lvls :: "level \<Rightarrow> int" where
  "lvls Easy = 5"
| "lvls Normal = 4"
| "lvls Hard = 5"

definition levelProgression :: "level list" where
  "levelProgression = [Easy, Normal, Hard]"

subsection \<open>The score store: JSON text under one key of localStorage\<close>

text \<open>
  \<open>JSON.parse\<close> and \<open>JSON.stringify\<close> belong to the platform. They are modelled by a
  recursive-descent reader of the JSON grammar and by the compact printer. A value keeps
  the text of a number and the escaped body of a string as they stand in the JSON text,
  so no floating-point value and no character outside one byte is ever computed.
  The reader takes fuel; \<open>JSON_parse\<close> gives it one more than the length of the text,
  and every nested call consumes a character.

  The printer writes that kept text back. The platform instead prints the value it has
  read, in its own normal form (\<open>1.0\<close> as \<open>1\<close>, \<open>\u0041\<close> as \<open>A\<close>, one member per
  key, index-like keys first). The two texts are the same exactly for the values in
  printed form, defined below, and the model prints no other parsed value: where the
  script would, the handler's outcome is \<open>Unmodelled\<close>. Numbers are integers of any
  size, as the scores of this model are.
\<close>

datatype error = SyntaxError | TypeError

datatype json =
    JNull
  | JBool bool
  | JNumber string
  | JString string
  | JArray "json list"
  | JObject "(string \<times> json) list"

definition is_ws :: "char \<Rightarrow> bool" where
  "is_ws c = (c = CHR 0x20 \<or> c = CHR 0x09 \<or> c = CHR 0x0A \<or> c = CHR 0x0D)"

definition skip_ws :: "string \<Rightarrow> string" where
  "skip_ws s = dropWhile is_ws s"

definition is_digit :: "char \<Rightarrow> bool" where
  "is_digit c = (let n = (of_char c :: nat) in 48 \<le> n \<and> n \<le> 57)"

definition is_hex :: "char \<Rightarrow> bool" where
  "is_hex c = (let n = (of_char c :: nat) in
     (48 \<le> n \<and> n \<le> 57) \<or> (65 \<le> n \<and> n \<le> 70) \<or> (97 \<le> n \<and> n \<le> 102))"

text \<open>The characters of a string after its opening quote, up to the closing quote.\<close>

fun parse_chars :: "string \<Rightarrow> (string \<times> string) option" where
  "parse_chars [] = None"
| "parse_chars (c # cs) =
     (if c = CHR 0x22 then Some ([], cs)
      else if c = CHR 0x5C then
        (case cs of
           [] \<Rightarrow> None
         | e # cs' \<Rightarrow>
             if e \<in> set [CHR 0x22, CHR 0x5C, CHR ''/'', CHR ''b'', CHR ''f'', CHR ''n'', CHR ''r'', CHR ''t''] then
               (case parse_chars cs' of None \<Rightarrow> None | Some (b, r) \<Rightarrow> Some (c # e # b, r))
             else if e = CHR ''u'' \<and> 4 \<le> length cs' \<and> list_all is_hex (take 4 cs') then
               (case parse_chars (drop 4 cs') of None \<Rightarrow> None
                | Some (b, r) \<Rightarrow> Some (c # e # take 4 cs' @ b, r))
             else None)
      else if (of_char c :: nat) < 32 then None
      else (case parse_chars cs of None \<Rightarrow> None | Some (b, r) \<Rightarrow> Some (c # b, r)))"

text \<open>The longest number at the head of the text: sign, integer part, fraction, exponent.\<close>

definition parse_exponent :: "string \<Rightarrow> (string \<times> string) option" where
  "parse_exponent s =
     (case s of
        [] \<Rightarrow> Some ([], s)
      | e # r \<Rightarrow>
          if e = CHR ''e'' \<or> e = CHR ''E'' then
            (let sg = (case r of [] \<Rightarrow> [] | c # _ \<Rightarrow> if c = CHR ''+'' \<or> c = CHR ''-'' then [c] else []);
                 r' = drop (length sg) r;
                 ds = takeWhile is_digit r'
             in if ds = [] then None else Some (e # sg @ ds, dropWhile is_digit r'))
          else Some ([], s))"

definition parse_fraction :: "string \<Rightarrow> (string \<times> string) option" where
  "parse_fraction s =
     (case s of
        [] \<Rightarrow> Some ([], s)
      | d # r \<Rightarrow>
          if d = CHR ''.'' then
            (let ds = takeWhile is_digit r
             in if ds = [] then None else Some (d # ds, dropWhile is_digit r))
          else Some ([], s))"

definition parse_integer :: "string \<Rightarrow> (string \<times> string) option" where
  "parse_integer s =
     (case s of
        [] \<Rightarrow> None
      | d # r \<Rightarrow>
          if d = CHR ''0'' then Some ([d], r)
          else if is_digit d then Some (d # takeWhile is_digit r, dropWhile is_digit r)
          else None)"

definition parse_number :: "string \<Rightarrow> (string \<times> string) option" where
  "parse_number s =
     (let sg = (case s of [] \<Rightarrow> [] | c # _ \<Rightarrow> if c = CHR ''-'' then [c] else [])
      in case parse_integer (drop (length sg) s) of
           None \<Rightarrow> None
         | Some (ip, r1) \<Rightarrow>
             (case parse_fraction r1 of
                None \<Rightarrow> None
              | Some (fp, r2) \<Rightarrow>
                  (case parse_exponent r2 of
                     None \<Rightarrow> None
                   | Some (ep, r3) \<Rightarrow> Some (sg @ ip @ fp @ ep, r3))))"

definition parse_literal :: "string \<Rightarrow> (json \<times> string) option" where
  "parse_literal s =
     (if prefix ''null'' s then Some (JNull, drop 4 s)
      else if prefix ''true'' s then Some (JBool True, drop 4 s)
      else if prefix ''false'' s then Some (JBool False, drop 5 s)
      else None)"

fun parse_value :: "nat \<Rightarrow> string \<Rightarrow> (json \<times> string) option"
  and parse_elements :: "nat \<Rightarrow> string \<Rightarrow> (json list \<times> string) option"
  and parse_members :: "nat \<Rightarrow> string \<Rightarrow> ((string \<times> json) list \<times> string) option"
where
  "parse_value 0 s = None"
| "parse_value (Suc n) s =
     (case skip_ws s of
        [] \<Rightarrow> None
      | c # cs \<Rightarrow>
          if c = CHR 0x22 then
            (case parse_chars cs of None \<Rightarrow> None | Some (b, r) \<Rightarrow> Some (JString b, r))
          else if c = CHR ''['' then
            (case skip_ws cs of
               [] \<Rightarrow> None
             | d # r \<Rightarrow>
                 if d = CHR '']'' then Some (JArray [], r)
                 else (case parse_elements n cs of None \<Rightarrow> None
                       | Some (vs, r') \<Rightarrow> Some (JArray vs, r')))
          else if c = CHR ''{'' then
            (case skip_ws cs of
               [] \<Rightarrow> None
             | d # r \<Rightarrow>
                 if d = CHR ''}'' then Some (JObject [], r)
                 else (case parse_members n cs of None \<Rightarrow> None
                       | Some (ms, r') \<Rightarrow> Some (JObject ms, r')))
          else if c = CHR ''-'' \<or> is_digit c then
            (case parse_number (c # cs) of None \<Rightarrow> None | Some (l, r) \<Rightarrow> Some (JNumber l, r))
          else parse_literal (c # cs))"
| "parse_elements 0 s = None"
| "parse_elements (Suc n) s =
     (case parse_value n s of
        None \<Rightarrow> None
      | Some (v, r) \<Rightarrow>
          (case skip_ws r of
             [] \<Rightarrow> None
           | d # r' \<Rightarrow>
               if d = CHR '','' then
                 (case parse_elements n r' of None \<Rightarrow> None
                  | Some (vs, r'') \<Rightarrow> Some (v # vs, r''))
               else if d = CHR '']'' then Some ([v], r')
               else None))"
| "parse_members 0 s = None"
| "parse_members (Suc n) s =
     (case skip_ws s of
        [] \<Rightarrow> None
      | q # s1 \<Rightarrow>
          if q \<noteq> CHR 0x22 then None
          else
            (case parse_chars s1 of
               None \<Rightarrow> None
             | Some (k, s2) \<Rightarrow>
                 (case skip_ws s2 of
                    [] \<Rightarrow> None
                  | col # s3 \<Rightarrow>
                      if col \<noteq> CHR '':'' then None
                      else
                        (case parse_value n s3 of
                           None \<Rightarrow> None
                         | Some (v, r) \<Rightarrow>
                             (case skip_ws r of
                                [] \<Rightarrow> None
                              | d # r' \<Rightarrow>
                                  if d = CHR '','' then
                                    (case parse_members n r' of None \<Rightarrow> None
                                     | Some (ms, r'') \<Rightarrow> Some ((k, v) # ms, r''))
                                  else if d = CHR ''}'' then Some ([(k, v)], r')
                                  else None)))))"

definition JSON_parse :: "string \<Rightarrow> error + json" where
  "JSON_parse s =
     (case parse_value (Suc (length s)) s of
        None \<Rightarrow> Inl SyntaxError
      | Some (v, r) \<Rightarrow> if skip_ws r = [] then Inr v else Inl SyntaxError)"

text \<open>\<open>JSON.stringify\<close>: no white space, members and elements separated by commas.\<close>

fun commas :: "string list \<Rightarrow> string" where
  "commas [] = []"
| "commas [x] = x"
| "commas (x # y # ys) = x @ CHR '','' # commas (y # ys)"

fun JSON_stringify :: "json \<Rightarrow> string"
  and stringify_member :: "string \<times> json \<Rightarrow> string"
where
  "JSON_stringify JNull = ''null''"
| "JSON_stringify (JBool b) = (if b then ''true'' else ''false'')"
| "JSON_stringify (JNumber l) = l"
| "JSON_stringify (JString b) = CHR 0x22 # b @ [CHR 0x22]"
| "JSON_stringify (JArray vs) = CHR ''['' # commas (map JSON_stringify vs) @ '']''"
| "JSON_stringify (JObject ms) = CHR ''{'' # commas (map stringify_member ms) @ ''}''"
| "stringify_member (k, v) = CHR 0x22 # k @ [CHR 0x22, CHR '':''] @ JSON_stringify v"

text \<open>The body that \<open>JSON.stringify\<close> writes for a string of the script.\<close>

definition hex_digit :: "nat \<Rightarrow> char" where
  "hex_digit d = (if d < 10 then char_of (48 + d) else char_of (87 + d))"

definition escape_char :: "char \<Rightarrow> string" where
  "escape_char c =
     (let n = (of_char c :: nat) in
      if c = CHR 0x22 then [CHR 0x5C, CHR 0x22]
      else if c = CHR 0x5C then [CHR 0x5C, CHR 0x5C]
      else if n = 8 then [CHR 0x5C, CHR ''b'']
      else if n = 9 then [CHR 0x5C, CHR ''t'']
      else if n = 10 then [CHR 0x5C, CHR ''n'']
      else if n = 12 then [CHR 0x5C, CHR ''f'']
      else if n = 13 then [CHR 0x5C, CHR ''r'']
      else if n < 32 then [CHR 0x5C, CHR ''u'', CHR ''0'', CHR ''0'', hex_digit (n div 16), hex_digit (n mod 16)]
      else [c])"

definition JSON_of_string :: "string \<Rightarrow> json" where
  "JSON_of_string s = JString (concat (map escape_char s))"

definition JSON_of_int :: "int \<Rightarrow> json" where
  "JSON_of_int i = JNumber (show_int i)"

text \<open>
  Printed form: what \<open>JSON.stringify\<close> itself writes. A number is a decimal integer
  (no fraction, no exponent, no leading zero, no \<open>-0\<close>); the body of a string uses only
  the escapes that the printer produces (the two-character escapes of the quote, the
  backslash and the control characters 8, 9, 10, 12, 13, and \<open>\u00xx\<close> in lower case
  for the other characters below 32); the keys of an object are such strings, pairwise
  different, none made of digits only (the platform moves index-like keys to the front)
  and none \<open>__proto__\<close>.
\<close>

definition printed_number :: "string \<Rightarrow> bool" where
  "printed_number l =
     (let ds = (case l of [] \<Rightarrow> [] | c # cs \<Rightarrow> if c = CHR ''-'' then cs else l)
      in ds \<noteq> [] \<and> list_all is_digit ds \<and> (if hd ds = CHR ''0'' then l = ''0'' else True))"

definition control_escapes :: "string list" where
  "control_escapes =
     map (\<lambda>n. [CHR ''0'', CHR ''0'', hex_digit (n div 16), hex_digit (n mod 16)])
       (filter (\<lambda>n. n \<notin> set [8, 9, 10, 12, 13]) [0..<32])"

fun printed_body :: "string \<Rightarrow> bool" where
  "printed_body [] = True"
| "printed_body (c # cs) =
     (if c = CHR 0x5C then
        (case cs of
           [] \<Rightarrow> False
         | e # r \<Rightarrow>
             if e \<in> set [CHR 0x22, CHR 0x5C, CHR ''b'', CHR ''f'', CHR ''n'', CHR ''r'', CHR ''t'']
             then printed_body r
             else if e = CHR ''u'' then take 4 r \<in> set control_escapes \<and> printed_body (drop 4 r)
             else False)
      else c \<noteq> CHR 0x22 \<and> \<not> (of_char c :: nat) < 32 \<and> printed_body cs)"

definition printed_key :: "string \<Rightarrow> bool" where
  "printed_key k =
     (printed_body k \<and> \<not> (k \<noteq> [] \<and> list_all is_digit k) \<and> k \<noteq> ''__proto__'')"

fun printed_form :: "json \<Rightarrow> bool"
  and printed_member :: "string \<times> json \<Rightarrow> bool"
where
  "printed_form JNull = True"
| "printed_form (JBool b) = True"
| "printed_form (JNumber l) = printed_number l"
| "printed_form (JString b) = printed_body b"
| "printed_form (JArray vs) = list_all printed_form vs"
| "printed_form (JObject ms) = (distinct (map fst ms) \<and> list_all printed_member ms)"
| "printed_member (k, v) = (printed_key k \<and> printed_form v)"

subsection \<open>Game state\<close>

datatype status = Win | Loss

fun status_name :: "status \<Rightarrow> string" where
  "status_name Win = ''win''"
| "status_name Loss = ''loss''"

text \<open>The texts shown in the finish element; each span carries a class name.\<close>

datatype message = AllLevelsCompleted | GameOver | LevelComplete level

text \<open>The callbacks handed to \<open>setTimeout\<close>, with the variables they close over.\<close>

datatype timeout = RemoveErrorClass | AdvanceLevel level

text \<open>What the browser supplies to a handler: \<open>Math.random()\<close> and the clock's ISO text.\<close>

record env =
  math_random :: rat
  date_now :: string

text \<open>
  The module-level variables, the parts of the page the script reads or writes, the
  timers of the window and the stored text under the key \<open>typingGameScores\<close>.
  \<open>intervals\<close> lists the identifiers of the live \<open>setInterval\<close> timers and
  \<open>timeouts\<close> the pending \<open>setTimeout\<close> callbacks; \<open>errorTones\<close> counts the calls
  of \<open>playErrorSound\<close>, which catches its own failures.
\<close>

record state =
  defaultLevelName :: level
  defaultLevelSeconds :: int
  currentWords :: "string list"
  currentTimer :: "nat option"
  isFirstWord :: bool
  startButton :: bool
  levelSelect :: level
  lvlNameSpan :: level
  secondsSpan :: int
  theWord :: string
  upcomingWords :: "string list"
  upcomingAttached :: bool
  inputValue :: string
  inputError :: bool
  timeLeftSpan :: int
  scoreGot :: int
  scoreTotal :: int
  finishMessage :: "(string \<times> message) list"
  intervals :: "nat list"
  nextTimerId :: nat
  timeouts :: "timeout list"
  errorTones :: nat
  storage :: "string option"

text \<open>
  A handler either runs to its end, or stops at an exception, or reaches a write of the
  score store whose text this model does not compute; what it wrote before stays
  written. In the last case the state is the one before that write, and the model says
  nothing about the write and the rest of the handler.
\<close>

datatype outcome = Done state | Raised error state | Unmodelled state

fun state_of :: "outcome \<Rightarrow> state" where
  "state_of (Done s) = s"
| "state_of (Raised e s) = s"
| "state_of (Unmodelled s) = s"

subsection \<open>Initialization and level display\<close>

definition updateUIForLevel :: "level \<Rightarrow> int \<Rightarrow> bool \<Rightarrow> state \<Rightarrow> state" where
  "updateUIForLevel levelName seconds keepScore s =
     (let s1 = s\<lparr>lvlNameSpan := levelName, secondsSpan := seconds, timeLeftSpan := seconds,
                  currentWords := wordsByLevel levelName\<rparr>
      in if keepScore
         then s1\<lparr>scoreTotal := scoreTotal s1 + int (length (currentWords s1))\<rparr>
         else s1\<lparr>scoreTotal := int (length (currentWords s1))\<rparr>)"

definition initializeGame :: "state \<Rightarrow> state" where
  "initializeGame s = updateUIForLevel (defaultLevelName s) (defaultLevelSeconds s) False s"

text \<open>
  The state when the script has set its variables and before \<open>initializeGame\<close> runs.
  The page itself is not part of the script: the text of the word element, the number in
  the score element and the stored text are parameters. The fields that
  \<open>initializeGame\<close> overwrites start at a fixed value.
\<close>

definition loaded :: "string \<Rightarrow> int \<Rightarrow> string option \<Rightarrow> state" where
  "loaded word0 got0 stored0 =
     \<lparr>defaultLevelName = Easy, defaultLevelSeconds = lvls Easy, currentWords = [],
      currentTimer = None, isFirstWord = True, startButton = True, levelSelect = Easy,
      lvlNameSpan = Easy, secondsSpan = 0, theWord = word0, upcomingWords = [],
      upcomingAttached = True, inputValue = [], inputError = False, timeLeftSpan = 0,
      scoreGot = got0, scoreTotal = 0, finishMessage = [], intervals = [], nextTimerId = 0,
      timeouts = [], errorTones = 0, storage = stored0\<rparr>"

definition handleLevelChange :: "level \<Rightarrow> state \<Rightarrow> state" where
  "handleLevelChange v s =
     (let s1 = s\<lparr>levelSelect := v, defaultLevelName := v, defaultLevelSeconds := lvls v\<rparr>
      in updateUIForLevel (defaultLevelName s1) (defaultLevelSeconds s1) False s1)"

subsection \<open>Input feedback\<close>

definition showInputError :: "state \<Rightarrow> state" where
  "showInputError s =
     s\<lparr>inputError := True, errorTones := Suc (errorTones s),
       timeouts := timeouts s @ [RemoveErrorClass]\<rparr>"

definition resetInputError :: "state \<Rightarrow> state" where
  "resetInputError s = s\<lparr>inputError := False\<rparr>"

definition handleInputValidation :: "state \<Rightarrow> state" where
  "handleInputValidation s =
     (let currentWord = toLowerCase (theWord s);
          userInput = toLowerCase (inputValue s)
      in if userInput \<noteq> [] \<and> \<not> startsWith currentWord userInput
         then (showInputError s)\<lparr>inputValue := slice_0_minus1 (inputValue s)\<rparr>
         else resetInputError s)"

subsection \<open>Word management and timer\<close>

definition getRandomWord :: "env \<Rightarrow> state \<Rightarrow> string option \<times> state" where
  "getRandomWord e s =
     (let randomIndex = \<lfloor>math_random e * of_nat (length (currentWords s))\<rfloor>;
          randomWord = at_index (currentWords s) randomIndex
      in (randomWord, s\<lparr>currentWords := splice1 randomIndex (currentWords s)\<rparr>))"

text \<open>Assigning \<open>undefined\<close> to \<open>innerHTML\<close> writes the text \<open>undefined\<close>.\<close>

definition displayCurrentWord :: "string option \<Rightarrow> state \<Rightarrow> state" where
  "displayCurrentWord word s =
     s\<lparr>theWord := (case word of None \<Rightarrow> ''undefined'' | Some w \<Rightarrow> w)\<rparr>"

definition displayUpcomingWords :: "state \<Rightarrow> state" where
  "displayUpcomingWords s = s\<lparr>upcomingWords := currentWords s\<rparr>"

definition clearInterval :: "nat option \<Rightarrow> state \<Rightarrow> state" where
  "clearInterval h s =
     (case h of None \<Rightarrow> s | Some i \<Rightarrow> s\<lparr>intervals := removeAll i (intervals s)\<rparr>)"

definition startTimer :: "state \<Rightarrow> state" where
  "startTimer s =
     (let timeForThisWord =
            (if isFirstWord s then defaultLevelSeconds s + 3 else defaultLevelSeconds s);
          s1 = s\<lparr>timeLeftSpan := timeForThisWord, isFirstWord := False\<rparr>
      in s1\<lparr>currentTimer := Some (nextTimerId s1),
             intervals := intervals s1 @ [nextTimerId s1],
             nextTimerId := Suc (nextTimerId s1)\<rparr>)"

definition generateNextWord :: "env \<Rightarrow> state \<Rightarrow> state" where
  "generateNextWord e s =
     (let (randomWord, s1) = getRandomWord e s
      in startTimer (displayUpcomingWords (displayCurrentWord randomWord s1)))"

definition handleStartGame :: "env \<Rightarrow> state \<Rightarrow> state" where
  "handleStartGame e s = generateNextWord e (s\<lparr>startButton := False, isFirstWord := True\<rparr>)"

subsection \<open>Score store\<close>

definition getScoreHistory :: "state \<Rightarrow> error + json" where
  "getScoreHistory s =
     (case storage s of
        None \<Rightarrow> Inr (JArray [])
      | Some stored \<Rightarrow> if stored \<noteq> [] then JSON_parse stored else Inr (JArray []))"

definition scoreData :: "env \<Rightarrow> int \<Rightarrow> int \<Rightarrow> level \<Rightarrow> status \<Rightarrow> json" where
  "scoreData e score tot lvl st =
     JObject [(''score'', JSON_of_int score), (''total'', JSON_of_int tot),
              (''level'', JSON_of_string (level_name lvl)),
              (''status'', JSON_of_string (status_name st)),
              (''date'', JSON_of_string (date_now e))]"

text \<open>
  \<open>push\<close> exists on arrays only; on any other parsed value the call raises. The text
  written is that of the printer when every entry read is in printed form.
\<close>

definition saveScore :: "env \<Rightarrow> int \<Rightarrow> int \<Rightarrow> level \<Rightarrow> status \<Rightarrow> state \<Rightarrow> outcome" where
  "saveScore e score tot lvl st s =
     (case getScoreHistory s of
        Inl err \<Rightarrow> Raised err s
      | Inr scoreHistory \<Rightarrow>
          (case scoreHistory of
             JArray entries \<Rightarrow>
               if list_all printed_form entries then
                 Done (s\<lparr>storage :=
                          Some (JSON_stringify (JArray (entries @ [scoreData e score tot lvl st])))\<rparr>)
               else Unmodelled s
           | _ \<Rightarrow> Raised TypeError s))"

definition saveGameScore :: "env \<Rightarrow> status \<Rightarrow> state \<Rightarrow> outcome" where
  "saveGameScore e st s = saveScore e (scoreGot s) (scoreTotal s) (defaultLevelName s) st s"

subsection \<open>Game end and level progression\<close>

definition displayEndMessage :: "message \<Rightarrow> string \<Rightarrow> state \<Rightarrow> state" where
  "displayEndMessage msg className s = s\<lparr>finishMessage := finishMessage s @ [(className, msg)]\<rparr>"

definition displayLevelCompleteMessage :: "level \<Rightarrow> state \<Rightarrow> state" where
  "displayLevelCompleteMessage nextLevel s =
     s\<lparr>finishMessage := finishMessage s @ [(''good'', LevelComplete nextLevel)]\<rparr>"

text \<open>
  \<open>endGame\<close> is the only caller and calls under \<open>hasNextLevel\<close>, so the index of the
  next level is inside \<open>levelProgression\<close>.
\<close>

definition advanceToNextLevel :: "env \<Rightarrow> state \<Rightarrow> outcome" where
  "advanceToNextLevel e s =
     (let currentLevelIndex = indexOf levelProgression (defaultLevelName s);
          nextLevel = levelProgression ! nat (currentLevelIndex + 1)
      in case saveGameScore e Win s of
           Raised err s' \<Rightarrow> Raised err s'
         | Unmodelled s' \<Rightarrow> Unmodelled s'
         | Done s1 \<Rightarrow>
             Done ((displayLevelCompleteMessage nextLevel s1)
                     \<lparr>timeouts := timeouts s1 @ [AdvanceLevel nextLevel]\<rparr>))"

definition endGame :: "env \<Rightarrow> status \<Rightarrow> state \<Rightarrow> outcome" where
  "endGame e st s =
     (if st = Win then
        (let currentLevelIndex = indexOf levelProgression (defaultLevelName s);
             hasNextLevel = currentLevelIndex < int (length levelProgression) - 1
         in if hasNextLevel then advanceToNextLevel e s
            else saveGameScore e st
                   ((displayEndMessage AllLevelsCompleted ''good'' s)\<lparr>upcomingAttached := False\<rparr>))
      else saveGameScore e st (displayEndMessage GameOver ''bad'' s))"

text \<open>The callback that \<open>advanceToNextLevel\<close> schedules, run two seconds later.\<close>

definition advanceCallback :: "level \<Rightarrow> env \<Rightarrow> state \<Rightarrow> state" where
  "advanceCallback nextLevel e s =
     (let s1 = s\<lparr>defaultLevelName := nextLevel, defaultLevelSeconds := lvls nextLevel\<rparr>;
          s2 = updateUIForLevel nextLevel (defaultLevelSeconds s1) True s1;
          s3 = s2\<lparr>levelSelect := nextLevel, finishMessage := [], isFirstWord := True\<rparr>
      in generateNextWord e s3)"

subsection \<open>Answer validation\<close>

definition incrementScore :: "state \<Rightarrow> state" where
  "incrementScore s = s\<lparr>scoreGot := scoreGot s + 1\<rparr>"

definition handleCorrectAnswer :: "env \<Rightarrow> state \<Rightarrow> outcome" where
  "handleCorrectAnswer e s =
     (let s1 = incrementScore (resetInputError (s\<lparr>inputValue := []\<rparr>))
      in if length (currentWords s1) > 0 then Done (generateNextWord e s1)
         else endGame e Win s1)"

definition handleWrongAnswer :: "env \<Rightarrow> state \<Rightarrow> outcome" where
  "handleWrongAnswer e s =
     (let s1 = resetInputError (s\<lparr>inputValue := []\<rparr>)
      in if length (currentWords s1) > 0 then Done (generateNextWord e s1)
         else endGame e Win s1)"

definition checkAnswer :: "env \<Rightarrow> state \<Rightarrow> outcome" where
  "checkAnswer e s =
     (let currentWord = toLowerCase (theWord s);
          userInput = toLowerCase (inputValue s)
      in if currentWord = userInput then handleCorrectAnswer e s else handleWrongAnswer e s)"

definition handleEnterKey :: "string \<Rightarrow> env \<Rightarrow> state \<Rightarrow> outcome" where
  "handleEnterKey key e s =
     (if key = ''Enter'' then
        (let currentWord = toLowerCase (theWord s);
             userInput = toLowerCase (inputValue s)
         in if currentWord = userInput then handleCorrectAnswer e (clearInterval (currentTimer s) s)
            else if length userInput > 0 then Done (showInputError s)
            else Done s)
      else Done s)"

text \<open>
  The callback of \<open>setInterval\<close>: one second less on the display; at zero it clears the
  timer that \<open>currentTimer\<close> names at that moment and checks the answer.
\<close>

definition timerCallback :: "env \<Rightarrow> state \<Rightarrow> outcome" where
  "timerCallback e s =
     (let s1 = s\<lparr>timeLeftSpan := timeLeftSpan s - 1\<rparr>
      in if timeLeftSpan s1 = 0 then checkAnswer e (clearInterval (currentTimer s1) s1)
         else Done s1)"

subsection \<open>Events\<close>

text \<open>
  The events the page delivers to the listeners of \<open>attachEventListeners\<close> and to the
  timers: a change of the level select, a click on the start button while it is in the
  page, an edit of the input field (the browser has already written the new value), a
  key pressed in the input field, the firing of interval \<open>i\<close> and of the \<open>k\<close>-th pending
  timeout. Paste is refused by the page, and a reload starts the script afresh.
\<close>

datatype event =
    Change level
  | ClickStart
  | Input string
  | KeyDown string
  | Tick nat
  | Timeout nat

definition step :: "env \<Rightarrow> event \<Rightarrow> state \<Rightarrow> outcome" where
  "step e ev s =
     (case ev of
        Change v \<Rightarrow> Done (handleLevelChange v s)
      | ClickStart \<Rightarrow> if startButton s then Done (handleStartGame e s) else Done s
      | Input v \<Rightarrow> Done (handleInputValidation (s\<lparr>inputValue := v\<rparr>))
      | KeyDown key \<Rightarrow> handleEnterKey key e s
      | Tick i \<Rightarrow> if i \<in> set (intervals s) then timerCallback e s else Done s
      | Timeout k \<Rightarrow>
          if k < length (timeouts s) then
            (let s1 = s\<lparr>timeouts := take k (timeouts s) @ drop (Suc k) (timeouts s)\<rparr>
             in case timeouts s ! k of
                  RemoveErrorClass \<Rightarrow> Done (s1\<lparr>inputError := False\<rparr>)
                | AdvanceLevel nextLevel \<Rightarrow> Done (advanceCallback nextLevel e s1))
          else Done s)"

fun run :: "(env \<times> event) list \<Rightarrow> state \<Rightarrow> state" where
  "run [] s = s"
| "run ((e, ev) # evs) s = run evs (state_of (step e ev s))"

subsection \<open>Auxiliary notions for the statements\<close>

text \<open>\<open>Math.random()\<close> returns a number from 0 (inclusive) up to 1 (exclusive).\<close>

definition in_unit_interval :: "env \<Rightarrow> bool" where
  "in_unit_interval e = (0 \<le> math_random e \<and> math_random e < 1)"

text \<open>The words returned by successive calls of \<open>getRandomWord\<close>, one per random number.\<close>

fun selections :: "env list \<Rightarrow> state \<Rightarrow> string option list" where
  "selections [] s = []"
| "selections (e # es) s = (let (w, s') = getRandomWord e s in w # selections es s')"

text \<open>No timer is live, or exactly one is and \<open>currentTimer\<close> names it.\<close>

definition at_most_current_live :: "state \<Rightarrow> bool" where
  "at_most_current_live s =
     (case intervals s of [] \<Rightarrow> True | [i] \<Rightarrow> currentTimer s = Some i | _ \<Rightarrow> False)"

text \<open>
  Two states show the same game when they differ at most in the input field and the
  error feedback (error class, error tones, pending timeouts).
\<close>

definition blank_input :: "state \<Rightarrow> state" where
  "blank_input s = s\<lparr>inputValue := [], inputError := False, errorTones := 0, timeouts := []\<rparr>"

definition same_game :: "state \<Rightarrow> state \<Rightarrow> bool" where
  "same_game s s' = (blank_input s' = blank_input s)"

text \<open>
  The events that do not resolve a round: a tick, an edit of the input, a key other than
  Enter or Enter on an input that differs from the displayed word, and the timeout that
  removes the error class. A run is quiet when each of its events is, in the state it
  meets.
\<close>

definition quiet :: "event \<Rightarrow> state \<Rightarrow> bool" where
  "quiet ev s =
     (case ev of
        Tick i \<Rightarrow> True
      | Input v \<Rightarrow> True
      | KeyDown key \<Rightarrow> key \<noteq> ''Enter'' \<or> toLowerCase (theWord s) \<noteq> toLowerCase (inputValue s)
      | Timeout k \<Rightarrow> length (timeouts s) \<le> k \<or> timeouts s ! k = RemoveErrorClass
      | _ \<Rightarrow> False)"

fun quiet_run :: "(env \<times> event) list \<Rightarrow> state \<Rightarrow> bool" where
  "quiet_run [] s = True"
| "quiet_run ((e, ev) # evs) s = (quiet ev s \<and> quiet_run evs (state_of (step e ev s)))"

text \<open>
  The entry that \<open>saveScore\<close> builds from its arguments and the clock, and the store
  contents that the game itself produces: nothing stored and no entry saved yet, or the
  JSON text of the entries saved so far.
\<close>

definition entry_of :: "env \<times> int \<times> int \<times> level \<times> status \<Rightarrow> json" where
  "entry_of x = (case x of (e, score, tot, lvl, st) \<Rightarrow> scoreData e score tot lvl st)"

definition game_store :: "(env \<times> int \<times> int \<times> level \<times> status) list \<Rightarrow> string option \<Rightarrow> bool" where
  "game_store xs stored =
     (stored = None \<and> xs = [] \<or> stored = Some (JSON_stringify (JArray (map entry_of xs))))"

subsection \<open>Scenarios\<close>

text \<open>
  Concrete inputs for the examples: an environment whose random number is always 0 (the
  first word of the pool is selected), a page that loads with an empty word element, the
  score 0 and nothing stored, and the events of a player who types a word character by
  character and presses Enter, or lets a timer run down.
\<close>

definition env0 :: env where
  "env0 = \<lparr>math_random = 0, date_now = ''2026-01-01T00:00:00.000Z''\<rparr>"

definition page0 :: state where
  "page0 = initializeGame (loaded [] 0 None)"

definition typeWord :: "env \<Rightarrow> string \<Rightarrow> (env \<times> event) list" where
  "typeWord e w = map (\<lambda>v. (e, Input v)) (tl (prefixes w)) @ [(e, KeyDown ''Enter'')]"

definition timeOut :: "env \<Rightarrow> nat \<Rightarrow> nat \<Rightarrow> (env \<times> event) list" where
  "timeOut e i n = replicate n (e, Tick i)"

text \<open>The first round of the Easy tier after a click on Start: the target is \<open>Hello\<close>.\<close>

definition firstRound :: state where
  "firstRound = handleStartGame env0 page0"

text \<open>The first round with \<open>hel\<close> typed and one second left on the timer.\<close>

definition lastSecond :: state where
  "lastSecond =
     run ((env0, ClickStart) # map (\<lambda>v. (env0, Input v)) [''h'', ''he'', ''hel''] @ timeOut env0 0 7)
       page0"

text \<open>
  The first round with \<open>he\<close> typed, and the first round interrupted by a change of the
  level select to Normal, its timer then running down from the 4 seconds on the display.
\<close>

definition heTyped :: state where
  "heTyped = run [(env0, ClickStart), (env0, Input ''h''), (env0, Input ''he'')] page0"

definition changedMidRound :: state where
  "changedMidRound = run ((env0, ClickStart) # (env0, Change Normal) # timeOut env0 0 4) page0"

text \<open>The events of a player who types every word of the Easy tier correctly.\<close>

definition playEasy :: "(env \<times> event) list" where
  "playEasy = (env0, ClickStart) # concat (map (typeWord env0) (wordsByLevel Easy))"

text \<open>
  The page after Enter was pressed in the input field before any click on Start: word
  element and input are both empty, so the comparison of \<open>handleEnterKey\<close> succeeds.
\<close>

definition startedByEnter :: state where
  "startedByEnter = state_of (step env0 (KeyDown ''Enter'') page0)"

text \<open>
  The Hard tier selected and started, every word left to time out, up to the last second
  of the last word; then the tick that exhausts the tier.
\<close>

definition hardUntilLastSecond :: "(env \<times> event) list" where
  "hardUntilLastSecond = (env0, Change Hard) # (env0, ClickStart) # timeOut env0 0 8 @
     concat (map (\<lambda>i. timeOut env0 i 5) [1..<29]) @ timeOut env0 29 4"

definition lastHardSecond :: state where
  "lastHardSecond = run hardUntilLastSecond page0"

definition wonState :: state where
  "wonState = state_of (step env0 (Tick 29) lastHardSecond)"

text \<open>
  The Hard tier selected and the first round started by Enter instead of a click on
  Start, every word left to time out. The start button is still in the page at the end.
\<close>

definition playUnstarted :: "(env \<times> event) list" where
  "playUnstarted = (env0, Change Hard) # (env0, KeyDown ''Enter'') # timeOut env0 0 8 @
     concat (map (\<lambda>i. timeOut env0 i 5) [1..<30])"

definition wonUnstarted :: state where
  "wonUnstarted = run playUnstarted page0"

text \<open>A page whose stored text is not JSON.\<close>

definition corruptStore :: state where
  "corruptStore = initializeGame (loaded [] 0 (Some ''{score: 3}''))"

section \<open>Properties\<close>

subsection \<open>Strings\<close>

lemma toLowerCase_Nil_iff: "toLowerCase s = [] \<longleftrightarrow> s = []"
  by (simp add: toLowerCase_def)

subsection \<open>Selecting the next word\<close>

lemma randomIndex_bounds:
  fixes r :: rat
  assumes "0 \<le> r" "r < 1" "0 < n"
  shows "0 \<le> \<lfloor>r * of_nat n\<rfloor> \<and> \<lfloor>r * of_nat n\<rfloor> < int n"
proof -
  have "0 \<le> r * of_nat n" using assms by simp
  then have a: "0 \<le> \<lfloor>r * of_nat n\<rfloor>" by simp
  have "r * of_nat n < of_nat n" using assms by simp
  then have "\<lfloor>r * of_nat n\<rfloor> < int n"
    by (simp add: floor_less_iff)
  with a show ?thesis by simp
qed

lemma getRandomWord_nonempty:
  assumes "currentWords s \<noteq> []" "in_unit_interval e"
  shows "\<exists>i < length (currentWords s).
           getRandomWord e s =
             (Some (currentWords s ! i),
              s\<lparr>currentWords := take i (currentWords s) @ drop (Suc i) (currentWords s)\<rparr>)"
proof -
  let ?ws = "currentWords s"
  let ?j = "\<lfloor>math_random e * of_nat (length ?ws)\<rfloor>"
  have b: "0 \<le> ?j \<and> ?j < int (length ?ws)"
    using assms randomIndex_bounds [of "math_random e" "length ?ws"]
    by (simp add: in_unit_interval_def)
  then have "nat ?j < length ?ws" by linarith
  moreover have "getRandomWord e s =
      (Some (?ws ! nat ?j), s\<lparr>currentWords := take (nat ?j) ?ws @ drop (Suc (nat ?j)) ?ws\<rparr>)"
    using b by (simp add: getRandomWord_def at_index_def splice1_def Let_def min_def)
  ultimately show ?thesis by blast
qed

lemma remove_nth_distinct:
  assumes "distinct ws" "i < length ws"
  shows "ws ! i \<notin> set (take i ws @ drop (Suc i) ws) \<and> distinct (take i ws @ drop (Suc i) ws)
         \<and> set (take i ws @ drop (Suc i) ws) \<subseteq> set ws"
proof -
  have "ws = take i ws @ ws ! i # drop (Suc i) ws"
    using assms(2) by (rule id_take_nth_drop)
  then have "distinct (take i ws @ ws ! i # drop (Suc i) ws)"
    using assms(1) by simp
  then have "ws ! i \<notin> set (take i ws @ drop (Suc i) ws) \<and> distinct (take i ws @ drop (Suc i) ws)"
    by auto
  moreover have "set (take i ws @ drop (Suc i) ws) \<subseteq> set ws"
    by (auto dest: in_set_takeD in_set_dropD)
  ultimately show ?thesis by simp
qed

lemma selections_distinct:
  assumes "distinct (currentWords s)" "length es \<le> length (currentWords s)"
    "list_all in_unit_interval es"
  shows "distinct (selections es s) \<and> set (selections es s) \<subseteq> Some ` set (currentWords s)
         \<and> length (selections es s) = length es"
  using assms
proof (induction es arbitrary: s)
  case Nil
  then show ?case by simp
next
  case (Cons e es)
  then have ne: "currentWords s \<noteq> []" and ue: "in_unit_interval e" by auto
  from getRandomWord_nonempty [OF ne ue] obtain i where
    i: "i < length (currentWords s)" and
    g: "getRandomWord e s = (Some (currentWords s ! i),
          s\<lparr>currentWords := take i (currentWords s) @ drop (Suc i) (currentWords s)\<rparr>)"
    by blast
  let ?s' = "s\<lparr>currentWords := take i (currentWords s) @ drop (Suc i) (currentWords s)\<rparr>"
  from remove_nth_distinct [OF Cons.prems(1) i]
  have r: "currentWords s ! i \<notin> set (currentWords ?s')" "distinct (currentWords ?s')"
      "set (currentWords ?s') \<subseteq> set (currentWords s)"
    by simp_all
  have len: "length es \<le> length (currentWords ?s')"
    using Cons.prems(2) i by simp
  from Cons.IH [OF r(2) len] Cons.prems(3)
  have ih: "distinct (selections es ?s')" "set (selections es ?s') \<subseteq> Some ` set (currentWords ?s')"
     "length (selections es ?s') = length es"
    by simp_all
  have "Some (currentWords s ! i) \<notin> set (selections es ?s')"
    using ih(2) r(1) by auto
  moreover have "Some (currentWords s ! i) \<in> Some ` set (currentWords s)"
    using i by simp
  moreover have "set (selections es ?s') \<subseteq> Some ` set (currentWords s)"
    using ih(2) r(3) by blast
  ultimately show ?case using g ih by simp
qed

lemma distinct_wordsByLevel: "distinct (wordsByLevel t)"
  by (cases t) simp_all

lemma currentWords_updateUIForLevel:
  "currentWords (updateUIForLevel t sec keep s) = wordsByLevel t"
  by (simp add: updateUIForLevel_def Let_def)

text \<open>
  C6. On a non-empty pool and a random number in the unit interval,
  \<open>getRandomWord\<close> returns the word at some index of the pool and leaves the pool with
  exactly that position removed, so the pool is one shorter; in a pool without
  duplicates the returned word is no longer in the pool. After a reset of the pool
  for a tier (\<open>updateUIForLevel\<close>), successive selections, as many as the tier has words
  at most, are all words of the tier and pairwise different.
\<close>

theorem C6_selection_without_replacement:
  "(currentWords s \<noteq> [] \<and> in_unit_interval e \<longrightarrow>
      (\<exists>i < length (currentWords s).
          fst (getRandomWord e s) = Some (currentWords s ! i) \<and>
          currentWords (snd (getRandomWord e s)) =
            take i (currentWords s) @ drop (Suc i) (currentWords s) \<and>
          (distinct (currentWords s) \<longrightarrow>
             currentWords s ! i \<notin> set (currentWords (snd (getRandomWord e s))))) \<and>
      Suc (length (currentWords (snd (getRandomWord e s)))) = length (currentWords s)) \<and>
   (list_all in_unit_interval es \<and> length es \<le> length (wordsByLevel t) \<longrightarrow>
      distinct (selections es (updateUIForLevel t sec keep s)) \<and>
      set (selections es (updateUIForLevel t sec keep s)) \<subseteq> Some ` set (wordsByLevel t) \<and>
      length (selections es (updateUIForLevel t sec keep s)) = length es)"
proof -
  have a: "(\<exists>i < length (currentWords s).
          fst (getRandomWord e s) = Some (currentWords s ! i) \<and>
          currentWords (snd (getRandomWord e s)) =
            take i (currentWords s) @ drop (Suc i) (currentWords s) \<and>
          (distinct (currentWords s) \<longrightarrow>
             currentWords s ! i \<notin> set (currentWords (snd (getRandomWord e s))))) \<and>
      Suc (length (currentWords (snd (getRandomWord e s)))) = length (currentWords s)"
    if "currentWords s \<noteq> []" "in_unit_interval e"
  proof -
    from getRandomWord_nonempty [OF that] obtain i where
      i: "i < length (currentWords s)" and
      g: "getRandomWord e s = (Some (currentWords s ! i),
          s\<lparr>currentWords := take i (currentWords s) @ drop (Suc i) (currentWords s)\<rparr>)"
      by blast
    have l: "Suc (length (currentWords (snd (getRandomWord e s)))) = length (currentWords s)"
      using i g by simp
    have d: "distinct (currentWords s) \<longrightarrow>
        currentWords s ! i \<notin> set (currentWords (snd (getRandomWord e s)))"
      using remove_nth_distinct [of "currentWords s" i] i g by simp
    from i g l d show ?thesis by auto
  qed
  have b: "distinct (selections es (updateUIForLevel t sec keep s)) \<and>
      set (selections es (updateUIForLevel t sec keep s)) \<subseteq> Some ` set (wordsByLevel t) \<and>
      length (selections es (updateUIForLevel t sec keep s)) = length es"
    if "list_all in_unit_interval es" "length es \<le> length (wordsByLevel t)"
    using selections_distinct [of "updateUIForLevel t sec keep s" es] that
    by (simp add: currentWords_updateUIForLevel distinct_wordsByLevel)
  from a b show ?thesis by blast
qed

theorem C6_selection_witness:
  "currentWords (initializeGame (loaded [] 0 None)) \<noteq> [] \<and>
   in_unit_interval \<lparr>math_random = 1 / 2, date_now = []\<rparr> \<and>
   list_all in_unit_interval
     [\<lparr>math_random = 1 / 2, date_now = []\<rparr>, \<lparr>math_random = 0, date_now = []\<rparr>,
      \<lparr>math_random = 29 / 30, date_now = []\<rparr>] \<and>
   Suc (length (currentWords (snd (getRandomWord \<lparr>math_random = 1 / 2, date_now = []\<rparr>
         (initializeGame (loaded [] 0 None)))))) = 30 \<and>
   distinct (selections
     [\<lparr>math_random = 1 / 2, date_now = []\<rparr>, \<lparr>math_random = 0, date_now = []\<rparr>,
      \<lparr>math_random = 29 / 30, date_now = []\<rparr>]
     (updateUIForLevel Easy 5 False (initializeGame (loaded [] 0 None))))"
proof -
  let ?s = "initializeGame (loaded [] 0 None)"
  let ?e = "\<lparr>math_random = 1 / 2, date_now = []\<rparr>"
  let ?es = "[?e, \<lparr>math_random = 0, date_now = []\<rparr>, \<lparr>math_random = 29 / 30, date_now = []\<rparr>]"
  have h1: "currentWords ?s \<noteq> []"
    by (simp add: initializeGame_def currentWords_updateUIForLevel loaded_def)
  have h2: "in_unit_interval ?e" by (simp add: in_unit_interval_def)
  have h3: "list_all in_unit_interval ?es" by (simp add: in_unit_interval_def)
  have h4: "length ?es \<le> length (wordsByLevel Easy)" by simp
  have h5: "length (currentWords ?s) = 30"
    by (simp add: initializeGame_def currentWords_updateUIForLevel loaded_def)
  from C6_selection_without_replacement [of ?s ?e ?es Easy 5 False] h1 h2 h3 h4 h5
  show ?thesis by simp
qed

subsection \<open>Live keystrokes\<close>

text \<open>
  \<open>handleInputValidation\<close> runs when the browser has written the edited value into the
  input field. If that value is non-empty and its lower-case form is not a prefix of the
  lower-case target, the error is signalled and the value loses its last character;
  otherwise the error class is removed and nothing else changes.
\<close>

lemma handleInputValidation_cases:
  "(inputValue s \<noteq> [] \<and> \<not> prefix (toLowerCase (inputValue s)) (toLowerCase (theWord s)) \<longrightarrow>
      handleInputValidation s =
        s\<lparr>inputError := True, errorTones := Suc (errorTones s),
          timeouts := timeouts s @ [RemoveErrorClass],
          inputValue := butlast (inputValue s)\<rparr> \<and>
      Suc (length (inputValue (handleInputValidation s))) = length (inputValue s) \<and>
      (\<forall>v c. inputValue s = v @ [c] \<longrightarrow> inputValue (handleInputValidation s) = v)) \<and>
   (inputValue s = [] \<or> prefix (toLowerCase (inputValue s)) (toLowerCase (theWord s)) \<longrightarrow>
      handleInputValidation s = s\<lparr>inputError := False\<rparr>)"
  by (auto simp add: handleInputValidation_def showInputError_def resetInputError_def
      startsWith_def slice_0_minus1_def toLowerCase_Nil_iff Let_def)

text \<open>
  C9. The character that \<open>handleInputValidation\<close> removes is the last one of the field,
  whichever was typed. With \<open>he\<close> typed against \<open>Hello\<close> and an \<open>x\<close> typed in front,
  the edited value \<open>xhe\<close> is rejected and cut to \<open>xh\<close>: the typed character stays and
  a correct one is lost, where the claim (and the comment in the handler) has the wrong
  character removed and the field back at \<open>he\<close>.
\<close>

theorem C9_typed_in_front:
  "theWord heTyped = ''Hello'' \<and> inputValue heTyped = ''he'' \<and> \<not> inputError heTyped \<and>
   inputValue (state_of (step env0 (Input ''xhe'') heTyped)) = ''xh'' \<and>
   inputError (state_of (step env0 (Input ''xhe'') heTyped)) \<and>
   inputValue (state_of (step env0 (Input ''xhe'') heTyped)) \<noteq> ''he''"
  by code_simp

subsection \<open>What the handlers leave unchanged\<close>

lemmas word_step_defs = generateNextWord_def getRandomWord_def displayCurrentWord_def
  displayUpcomingWords_def startTimer_def Let_def split_def

lemma generateNextWord_fields:
  "scoreGot (generateNextWord e s) = scoreGot s"
  "scoreTotal (generateNextWord e s) = scoreTotal s"
  "inputValue (generateNextWord e s) = inputValue s"
  "inputError (generateNextWord e s) = inputError s"
  "storage (generateNextWord e s) = storage s"
  "finishMessage (generateNextWord e s) = finishMessage s"
  "timeouts (generateNextWord e s) = timeouts s"
  "defaultLevelName (generateNextWord e s) = defaultLevelName s"
  "defaultLevelSeconds (generateNextWord e s) = defaultLevelSeconds s"
  "isFirstWord (generateNextWord e s) = False"
  "timeLeftSpan (generateNextWord e s) =
     (if isFirstWord s then defaultLevelSeconds s + 3 else defaultLevelSeconds s)"
  "intervals (generateNextWord e s) = intervals s @ [nextTimerId s]"
  "currentTimer (generateNextWord e s) = Some (nextTimerId s)"
  "nextTimerId (generateNextWord e s) = Suc (nextTimerId s)"
  "startButton (generateNextWord e s) = startButton s"
  by (simp_all add: word_step_defs)

lemma saveScore_other_fields:
  "\<exists>x. state_of (saveScore e a b l st s) = s\<lparr>storage := x\<rparr>"
proof -
  have "s = s\<lparr>storage := storage s\<rparr>" by simp
  then have same: "\<exists>x. s = s\<lparr>storage := x\<rparr>" by (rule exI)
  show ?thesis
  proof (cases "getScoreHistory s")
    case (Inl err)
    with same show ?thesis by (simp add: saveScore_def)
  next
    case (Inr h)
    show ?thesis
    proof (cases h)
      case (JArray entries)
      show ?thesis
      proof (cases "list_all printed_form entries")
        case True
        have "state_of (saveScore e a b l st s) =
            s\<lparr>storage := Some (JSON_stringify (JArray (entries @ [scoreData e a b l st])))\<rparr>"
          using Inr JArray True by (simp add: saveScore_def)
        then show ?thesis by (rule exI)
      next
        case False
        with Inr JArray same show ?thesis by (simp add: saveScore_def)
      qed
    qed (use Inr same in \<open>simp_all add: saveScore_def\<close>)
  qed
qed

lemma saveGameScore_other_fields:
  "\<exists>x. state_of (saveGameScore e st s) = s\<lparr>storage := x\<rparr>"
  unfolding saveGameScore_def by (rule saveScore_other_fields)

lemma advanceToNextLevel_shape:
  "\<exists>x m t. state_of (advanceToNextLevel e s) = s\<lparr>storage := x, finishMessage := m, timeouts := t\<rparr>"
proof -
  from saveGameScore_other_fields [of e Win s] obtain x where
    x: "state_of (saveGameScore e Win s) = s\<lparr>storage := x\<rparr>" by blast
  show ?thesis
  proof (cases "saveGameScore e Win s")
    case (Done s1)
    with x have s1: "s1 = s\<lparr>storage := x\<rparr>" by simp
    have "state_of (advanceToNextLevel e s) =
        s\<lparr>storage := x,
          finishMessage := finishMessage s @
            [(''good'', LevelComplete (levelProgression ! nat (indexOf levelProgression (defaultLevelName s) + 1)))],
          timeouts := timeouts s @
            [AdvanceLevel (levelProgression ! nat (indexOf levelProgression (defaultLevelName s) + 1))]\<rparr>"
      using Done s1 by (simp add: advanceToNextLevel_def displayLevelCompleteMessage_def Let_def)
    then show ?thesis by blast
  next
    case (Raised err s1)
    with x have s1: "s1 = s\<lparr>storage := x\<rparr>" by simp
    have "state_of (advanceToNextLevel e s) =
        s\<lparr>storage := x, finishMessage := finishMessage s, timeouts := timeouts s\<rparr>"
      using Raised s1 by (simp add: advanceToNextLevel_def Let_def)
    then show ?thesis by blast
  next
    case (Unmodelled s1)
    with x have s1: "s1 = s\<lparr>storage := x\<rparr>" by simp
    have "state_of (advanceToNextLevel e s) =
        s\<lparr>storage := x, finishMessage := finishMessage s, timeouts := timeouts s\<rparr>"
      using Unmodelled s1 by (simp add: advanceToNextLevel_def Let_def)
    then show ?thesis by blast
  qed
qed

lemma endGame_shape:
  "\<exists>x m t u. state_of (endGame e st s) =
      s\<lparr>storage := x, finishMessage := m, timeouts := t, upcomingAttached := u\<rparr>"
proof -
  let ?next = "st = Win \<and> indexOf levelProgression (defaultLevelName s) < int (length levelProgression) - 1"
  show ?thesis
  proof (cases ?next)
    case True
    from advanceToNextLevel_shape [of e s] obtain x m t where
      "state_of (advanceToNextLevel e s) = s\<lparr>storage := x, finishMessage := m, timeouts := t\<rparr>"
      by blast
    then have "state_of (endGame e st s) =
        s\<lparr>storage := x, finishMessage := m, timeouts := t, upcomingAttached := upcomingAttached s\<rparr>"
      using True by (simp add: endGame_def Let_def)
    then show ?thesis by blast
  next
    case False
    let ?s1 = "if st = Win
      then (displayEndMessage AllLevelsCompleted ''good'' s)\<lparr>upcomingAttached := False\<rparr>
      else displayEndMessage GameOver ''bad'' s"
    from saveGameScore_other_fields [of e st ?s1] obtain x where
      x: "state_of (saveGameScore e st ?s1) = ?s1\<lparr>storage := x\<rparr>" by blast
    have "state_of (endGame e st s) = state_of (saveGameScore e st ?s1)"
      using False by (auto simp add: endGame_def Let_def)
    with x have "state_of (endGame e st s) =
        s\<lparr>storage := x, finishMessage := finishMessage ?s1, timeouts := timeouts s,
          upcomingAttached := upcomingAttached ?s1\<rparr>"
      by (simp add: displayEndMessage_def)
    then show ?thesis by blast
  qed
qed

lemma endGame_fields:
  "scoreGot (state_of (endGame e st s)) = scoreGot s"
  "scoreTotal (state_of (endGame e st s)) = scoreTotal s"
  "inputValue (state_of (endGame e st s)) = inputValue s"
  "inputError (state_of (endGame e st s)) = inputError s"
  "intervals (state_of (endGame e st s)) = intervals s"
  "currentTimer (state_of (endGame e st s)) = currentTimer s"
  "nextTimerId (state_of (endGame e st s)) = nextTimerId s"
  "isFirstWord (state_of (endGame e st s)) = isFirstWord s"
  "defaultLevelName (state_of (endGame e st s)) = defaultLevelName s"
  "defaultLevelSeconds (state_of (endGame e st s)) = defaultLevelSeconds s"
  "currentWords (state_of (endGame e st s)) = currentWords s"
  "theWord (state_of (endGame e st s)) = theWord s"
  "timeLeftSpan (state_of (endGame e st s)) = timeLeftSpan s"
  "startButton (state_of (endGame e st s)) = startButton s"
  "errorTones (state_of (endGame e st s)) = errorTones s"
proof -
  from endGame_shape [of e st s] obtain x m t u where
    sh: "state_of (endGame e st s) =
      s\<lparr>storage := x, finishMessage := m, timeouts := t, upcomingAttached := u\<rparr>"
    by blast
  show "scoreGot (state_of (endGame e st s)) = scoreGot s"
    "scoreTotal (state_of (endGame e st s)) = scoreTotal s"
    "inputValue (state_of (endGame e st s)) = inputValue s"
    "inputError (state_of (endGame e st s)) = inputError s"
    "intervals (state_of (endGame e st s)) = intervals s"
    "currentTimer (state_of (endGame e st s)) = currentTimer s"
    "nextTimerId (state_of (endGame e st s)) = nextTimerId s"
    "isFirstWord (state_of (endGame e st s)) = isFirstWord s"
    "defaultLevelName (state_of (endGame e st s)) = defaultLevelName s"
    "defaultLevelSeconds (state_of (endGame e st s)) = defaultLevelSeconds s"
    "currentWords (state_of (endGame e st s)) = currentWords s"
    "theWord (state_of (endGame e st s)) = theWord s"
    "timeLeftSpan (state_of (endGame e st s)) = timeLeftSpan s"
    "startButton (state_of (endGame e st s)) = startButton s"
    "errorTones (state_of (endGame e st s)) = errorTones s"
    unfolding sh by simp_all
qed

lemma clearInterval_fields:
  "scoreGot (clearInterval h s) = scoreGot s"
  "inputValue (clearInterval h s) = inputValue s"
  "theWord (clearInterval h s) = theWord s"
  "currentWords (clearInterval h s) = currentWords s"
  "currentTimer (clearInterval h s) = currentTimer s"
  "nextTimerId (clearInterval h s) = nextTimerId s"
  "isFirstWord (clearInterval h s) = isFirstWord s"
  "defaultLevelSeconds (clearInterval h s) = defaultLevelSeconds s"
  "defaultLevelName (clearInterval h s) = defaultLevelName s"
  "intervals (clearInterval h s) = (case h of None \<Rightarrow> intervals s | Some i \<Rightarrow> removeAll i (intervals s))"
  by (simp_all add: clearInterval_def split: option.splits)

lemma handleCorrectAnswer_unfold:
  "handleCorrectAnswer e s =
     (if currentWords s \<noteq> []
      then Done (generateNextWord e (s\<lparr>inputValue := [], inputError := False, scoreGot := scoreGot s + 1\<rparr>))
      else endGame e Win (s\<lparr>inputValue := [], inputError := False, scoreGot := scoreGot s + 1\<rparr>))"
  by (simp add: handleCorrectAnswer_def incrementScore_def resetInputError_def Let_def)

lemma handleWrongAnswer_unfold:
  "handleWrongAnswer e s =
     (if currentWords s \<noteq> []
      then Done (generateNextWord e (s\<lparr>inputValue := [], inputError := False\<rparr>))
      else endGame e Win (s\<lparr>inputValue := [], inputError := False\<rparr>))"
  by (simp add: handleWrongAnswer_def resetInputError_def Let_def)

subsection \<open>Submitting with Enter\<close>

text \<open>
  C7. Pressing Enter compares the lower-case forms of the target and of the input.
  If they are equal, the current timer is cleared and the round resolves through
  \<open>handleCorrectAnswer\<close>: the score grows by one, the input is emptied, and either the
  next word is generated (pool non-empty) or \<open>endGame\<close> runs (pool empty); the cleared
  timer is no longer live afterwards. If they differ and the input is non-empty, only the
  error feedback changes (error class, error tone, the timeout that removes the class)
  and the round stays pending with its timer. If the input is empty and the target is
  not, nothing changes.
\<close>

theorem C7_submit_three_cases:
  "(toLowerCase (theWord s) = toLowerCase (inputValue s) \<longrightarrow>
      handleEnterKey ''Enter'' e s = handleCorrectAnswer e (clearInterval (currentTimer s) s) \<and>
      (\<forall>i. currentTimer s = Some i \<longrightarrow> i \<notin> set (intervals (clearInterval (currentTimer s) s))) \<and>
      (\<forall>i. currentTimer s = Some i \<and> i < nextTimerId s \<longrightarrow>
           i \<notin> set (intervals (state_of (handleEnterKey ''Enter'' e s)))) \<and>
      scoreGot (state_of (handleEnterKey ''Enter'' e s)) = scoreGot s + 1 \<and>
      inputValue (state_of (handleEnterKey ''Enter'' e s)) = [] \<and>
      (currentWords s \<noteq> [] \<longrightarrow>
         handleEnterKey ''Enter'' e s =
           Done (generateNextWord e ((clearInterval (currentTimer s) s)
                   \<lparr>inputValue := [], inputError := False, scoreGot := scoreGot s + 1\<rparr>))) \<and>
      (currentWords s = [] \<longrightarrow>
         handleEnterKey ''Enter'' e s =
           endGame e Win ((clearInterval (currentTimer s) s)
                   \<lparr>inputValue := [], inputError := False, scoreGot := scoreGot s + 1\<rparr>))) \<and>
   (toLowerCase (theWord s) \<noteq> toLowerCase (inputValue s) \<and> inputValue s \<noteq> [] \<longrightarrow>
      handleEnterKey ''Enter'' e s =
        Done (s\<lparr>inputError := True, errorTones := Suc (errorTones s),
                timeouts := timeouts s @ [RemoveErrorClass]\<rparr>)) \<and>
   (inputValue s = [] \<and> theWord s \<noteq> [] \<longrightarrow> handleEnterKey ''Enter'' e s = Done s)"
proof -
  let ?c = "clearInterval (currentTimer s) s"
  let ?r = "handleEnterKey ''Enter'' e s"
  let ?s1 = "?c\<lparr>inputValue := [], inputError := False, scoreGot := scoreGot s + 1\<rparr>"
  have c1: "toLowerCase (theWord s) = toLowerCase (inputValue s) \<longrightarrow>
      ?r = handleCorrectAnswer e ?c \<and>
      (\<forall>i. currentTimer s = Some i \<longrightarrow> i \<notin> set (intervals ?c)) \<and>
      (\<forall>i. currentTimer s = Some i \<and> i < nextTimerId s \<longrightarrow> i \<notin> set (intervals (state_of ?r))) \<and>
      scoreGot (state_of ?r) = scoreGot s + 1 \<and>
      inputValue (state_of ?r) = [] \<and>
      (currentWords s \<noteq> [] \<longrightarrow> ?r = Done (generateNextWord e ?s1)) \<and>
      (currentWords s = [] \<longrightarrow> ?r = endGame e Win ?s1)"
  proof (rule impI)
    assume m: "toLowerCase (theWord s) = toLowerCase (inputValue s)"
    have eq: "?r = handleCorrectAnswer e ?c"
      using m by (simp add: handleEnterKey_def Let_def)
    have b2: "\<forall>i. currentTimer s = Some i \<longrightarrow> i \<notin> set (intervals ?c)"
      by (simp add: clearInterval_fields)
    have b3: "\<forall>i. currentTimer s = Some i \<and> i < nextTimerId s \<longrightarrow> i \<notin> set (intervals (state_of ?r))"
      unfolding eq
      by (simp add: handleCorrectAnswer_unfold generateNextWord_fields endGame_fields
          clearInterval_fields)
    have b4: "scoreGot (state_of ?r) = scoreGot s + 1"
      unfolding eq
      by (simp add: handleCorrectAnswer_unfold generateNextWord_fields endGame_fields
          clearInterval_fields)
    have b5: "inputValue (state_of ?r) = []"
      unfolding eq
      by (simp add: handleCorrectAnswer_unfold generateNextWord_fields endGame_fields)
    have b6: "currentWords s \<noteq> [] \<longrightarrow> ?r = Done (generateNextWord e ?s1)"
      unfolding eq by (simp add: handleCorrectAnswer_unfold clearInterval_fields)
    have b7: "currentWords s = [] \<longrightarrow> ?r = endGame e Win ?s1"
      unfolding eq by (simp add: handleCorrectAnswer_unfold clearInterval_fields)
    show "?r = handleCorrectAnswer e ?c \<and>
      (\<forall>i. currentTimer s = Some i \<longrightarrow> i \<notin> set (intervals ?c)) \<and>
      (\<forall>i. currentTimer s = Some i \<and> i < nextTimerId s \<longrightarrow> i \<notin> set (intervals (state_of ?r))) \<and>
      scoreGot (state_of ?r) = scoreGot s + 1 \<and>
      inputValue (state_of ?r) = [] \<and>
      (currentWords s \<noteq> [] \<longrightarrow> ?r = Done (generateNextWord e ?s1)) \<and>
      (currentWords s = [] \<longrightarrow> ?r = endGame e Win ?s1)"
      by (intro conjI) (rule eq, rule b2, rule b3, rule b4, rule b5, rule b6, rule b7)
  qed
  have c2: "toLowerCase (theWord s) \<noteq> toLowerCase (inputValue s) \<and> inputValue s \<noteq> [] \<longrightarrow>
      ?r = Done (s\<lparr>inputError := True, errorTones := Suc (errorTones s),
                timeouts := timeouts s @ [RemoveErrorClass]\<rparr>)"
    by (simp add: handleEnterKey_def showInputError_def toLowerCase_Nil_iff Let_def)
  have c3: "inputValue s = [] \<and> theWord s \<noteq> [] \<longrightarrow> ?r = Done s"
    by (simp add: handleEnterKey_def toLowerCase_def Let_def)
  show ?thesis
    by (intro conjI) (rule c1, rule c2, rule c3)
qed

theorem C7_submit_witness:
  "(toLowerCase (theWord (firstRound\<lparr>inputValue := ''HELLO''\<rparr>)) = toLowerCase ''HELLO'' \<and>
    theWord firstRound = ''Hello'' \<and>
    scoreGot (state_of (handleEnterKey ''Enter'' env0 (firstRound\<lparr>inputValue := ''HELLO''\<rparr>))) = 1 \<and>
    0 \<notin> set (intervals (state_of (handleEnterKey ''Enter'' env0 (firstRound\<lparr>inputValue := ''HELLO''\<rparr>))))) \<and>
   (toLowerCase (theWord (firstRound\<lparr>inputValue := ''hel''\<rparr>)) \<noteq> toLowerCase ''hel'' \<and>
    handleEnterKey ''Enter'' env0 (firstRound\<lparr>inputValue := ''hel''\<rparr>) =
      Done (firstRound\<lparr>inputValue := ''hel'', inputError := True, errorTones := 1,
              timeouts := [RemoveErrorClass]\<rparr>)) \<and>
   (inputValue firstRound = [] \<and> theWord firstRound \<noteq> [] \<and>
    handleEnterKey ''Enter'' env0 firstRound = Done firstRound)"
proof -
  let ?a = "firstRound\<lparr>inputValue := ''HELLO''\<rparr>"
  let ?b = "firstRound\<lparr>inputValue := ''hel''\<rparr>"
  have w: "theWord firstRound = ''Hello''" by code_simp
  have a1: "toLowerCase (theWord ?a) = toLowerCase (inputValue ?a)" by code_simp
  have a2: "currentTimer ?a = Some 0 \<and> (0::nat) < nextTimerId ?a \<and> scoreGot ?a = 0" by code_simp
  have b1: "toLowerCase (theWord ?b) \<noteq> toLowerCase (inputValue ?b) \<and> inputValue ?b \<noteq> []" by code_simp
  have b2: "errorTones ?b = 0 \<and> timeouts ?b = []" by code_simp
  have c1: "inputValue firstRound = [] \<and> theWord firstRound \<noteq> []" by code_simp
  note ta = C7_submit_three_cases [of ?a env0, THEN conjunct1, THEN mp, OF a1]
  note ta_gone = ta [THEN conjunct2, THEN conjunct2, THEN conjunct1, THEN spec, of 0]
  note ta_score = ta [THEN conjunct2, THEN conjunct2, THEN conjunct2, THEN conjunct1]
  from ta_gone a2 have "0 \<notin> set (intervals (state_of (handleEnterKey ''Enter'' env0 ?a)))"
    by simp
  moreover from ta_score a2 have "scoreGot (state_of (handleEnterKey ''Enter'' env0 ?a)) = 1"
    by simp
  ultimately have ra: "scoreGot (state_of (handleEnterKey ''Enter'' env0 ?a)) = 1 \<and>
      0 \<notin> set (intervals (state_of (handleEnterKey ''Enter'' env0 ?a)))"
    by simp
  note tb = C7_submit_three_cases [of ?b env0, THEN conjunct2, THEN conjunct1, THEN mp, OF b1]
  from tb b2
  have rb: "handleEnterKey ''Enter'' env0 ?b =
      Done (firstRound\<lparr>inputValue := ''hel'', inputError := True, errorTones := 1,
              timeouts := [RemoveErrorClass]\<rparr>)"
    by simp
  note rc = C7_submit_three_cases [of firstRound env0, THEN conjunct2, THEN conjunct2, THEN mp, OF c1]
  from w a1 b1 c1 ra rb rc show ?thesis by simp
qed

subsection \<open>Level display and progression\<close>

lemma updateUIForLevel_fields:
  "isFirstWord (updateUIForLevel t sec keep s) = isFirstWord s"
  "defaultLevelName (updateUIForLevel t sec keep s) = defaultLevelName s"
  "defaultLevelSeconds (updateUIForLevel t sec keep s) = defaultLevelSeconds s"
  "intervals (updateUIForLevel t sec keep s) = intervals s"
  "currentTimer (updateUIForLevel t sec keep s) = currentTimer s"
  "nextTimerId (updateUIForLevel t sec keep s) = nextTimerId s"
  "timeLeftSpan (updateUIForLevel t sec keep s) = sec"
  "scoreGot (updateUIForLevel t sec keep s) = scoreGot s"
  "storage (updateUIForLevel t sec keep s) = storage s"
  "scoreTotal (updateUIForLevel t sec keep s) =
     (if keep then scoreTotal s + int (length (wordsByLevel t)) else int (length (wordsByLevel t)))"
  by (simp_all add: updateUIForLevel_def Let_def)

lemma advanceCallback_fields:
  "isFirstWord (advanceCallback t e s) = False"
  "defaultLevelName (advanceCallback t e s) = t"
  "defaultLevelSeconds (advanceCallback t e s) = lvls t"
  "timeLeftSpan (advanceCallback t e s) = lvls t + 3"
  "scoreTotal (advanceCallback t e s) = scoreTotal s + int (length (wordsByLevel t))"
  "scoreGot (advanceCallback t e s) = scoreGot s"
  "intervals (advanceCallback t e s) = intervals s @ [nextTimerId s]"
  "currentTimer (advanceCallback t e s) = Some (nextTimerId s)"
  "nextTimerId (advanceCallback t e s) = Suc (nextTimerId s)"
  by (simp_all add: advanceCallback_def generateNextWord_fields updateUIForLevel_fields Let_def)

subsection \<open>Bonus time for the first word\<close>

text \<open>
  C8. \<open>startTimer\<close> adds the three bonus seconds whenever the first-word flag is set,
  and the flag is set by the click on Start and by the tier-advance callback only. That
  is not once per tier, first word only. When Enter has started the Easy tier before the
  click on Start, \<open>Hello\<close> gets 8 seconds and the click gives the next Easy word,
  \<open>Code\<close>, 8 seconds again. When the level select is changed to Normal during the first
  round, the first Normal word, \<open>Programming\<close>, gets the plain 4 seconds.
\<close>

theorem C8_bonus_twice_and_missing:
  "lvls Easy = 5 \<and>
   defaultLevelName startedByEnter = Easy \<and> theWord startedByEnter = ''Hello'' \<and>
   timeLeftSpan startedByEnter = 8 \<and>
   defaultLevelName (state_of (step env0 ClickStart startedByEnter)) = Easy \<and>
   theWord (state_of (step env0 ClickStart startedByEnter)) = ''Code'' \<and>
   timeLeftSpan (state_of (step env0 ClickStart startedByEnter)) = 8 \<and>
   lvls Normal = 4 \<and>
   defaultLevelName changedMidRound = Normal \<and> theWord changedMidRound = ''Programming'' \<and>
   hd (wordsByLevel Normal) = ''Programming'' \<and> timeLeftSpan changedMidRound = 4"
  by code_simp

subsection \<open>Runs and answers\<close>

lemma run_append: "run (xs @ ys) s = run ys (run xs s)"
  by (induction xs arbitrary: s) auto

lemma handleCorrect_is_wrong_after_increment:
  "handleCorrectAnswer e s = handleWrongAnswer e (incrementScore s)"
proof -
  have eq: "incrementScore (resetInputError (s\<lparr>inputValue := []\<rparr>)) =
      resetInputError ((incrementScore s)\<lparr>inputValue := []\<rparr>)"
    by (cases s) (simp add: incrementScore_def resetInputError_def)
  show ?thesis
    unfolding handleCorrectAnswer_def handleWrongAnswer_def Let_def eq ..
qed

lemma handleEnterKey_pending:
  assumes "toLowerCase (theWord s) \<noteq> toLowerCase (inputValue s)"
  shows "handleEnterKey key e s = Done s \<or> handleEnterKey key e s = Done (showInputError s)"
  using assms by (simp add: handleEnterKey_def Let_def)

subsection \<open>Timeout against an explicit wrong submission\<close>

text \<open>
  C3 (as amended). When the input is not equal to the target case-insensitively, the
  timer reaching zero resolves the round as a wrong answer: the score stays, the input is
  emptied, and the next word is generated (pool non-empty) or \<open>endGame\<close> runs (pool
  empty), which is what a correct answer does apart from the score. Pressing Enter on
  such an input does not resolve the round: target, pool, input, score, live timers and
  remaining time stay as they are.
\<close>

theorem C3_timeout_resolves_as_wrong:
  "toLowerCase (theWord s) \<noteq> toLowerCase (inputValue s) \<longrightarrow>
     (timeLeftSpan s = 1 \<longrightarrow>
        timerCallback e s =
          handleWrongAnswer e (clearInterval (currentTimer s) (s\<lparr>timeLeftSpan := 0\<rparr>))) \<and>
     checkAnswer e s = handleWrongAnswer e s \<and>
     scoreGot (state_of (checkAnswer e s)) = scoreGot s \<and>
     inputValue (state_of (checkAnswer e s)) = [] \<and>
     (currentWords s \<noteq> [] \<longrightarrow>
        checkAnswer e s = Done (generateNextWord e (s\<lparr>inputValue := [], inputError := False\<rparr>))) \<and>
     (currentWords s = [] \<longrightarrow>
        checkAnswer e s = endGame e Win (s\<lparr>inputValue := [], inputError := False\<rparr>)) \<and>
     handleCorrectAnswer e s = handleWrongAnswer e (incrementScore s) \<and>
     theWord (state_of (handleEnterKey ''Enter'' e s)) = theWord s \<and>
     currentWords (state_of (handleEnterKey ''Enter'' e s)) = currentWords s \<and>
     inputValue (state_of (handleEnterKey ''Enter'' e s)) = inputValue s \<and>
     scoreGot (state_of (handleEnterKey ''Enter'' e s)) = scoreGot s \<and>
     intervals (state_of (handleEnterKey ''Enter'' e s)) = intervals s \<and>
     timeLeftSpan (state_of (handleEnterKey ''Enter'' e s)) = timeLeftSpan s"
proof (rule impI)
  assume m: "toLowerCase (theWord s) \<noteq> toLowerCase (inputValue s)"
  let ?k = "state_of (handleEnterKey ''Enter'' e s)"
  have chk: "checkAnswer e s = handleWrongAnswer e s"
    using m by (simp add: checkAnswer_def Let_def)
  have b1: "timeLeftSpan s = 1 \<longrightarrow>
        timerCallback e s =
          handleWrongAnswer e (clearInterval (currentTimer s) (s\<lparr>timeLeftSpan := 0\<rparr>))"
    using m by (simp add: timerCallback_def checkAnswer_def clearInterval_fields Let_def)
  have b3: "scoreGot (state_of (checkAnswer e s)) = scoreGot s"
    unfolding chk by (simp add: handleWrongAnswer_unfold generateNextWord_fields endGame_fields)
  have b4: "inputValue (state_of (checkAnswer e s)) = []"
    unfolding chk by (simp add: handleWrongAnswer_unfold generateNextWord_fields endGame_fields)
  have b5: "currentWords s \<noteq> [] \<longrightarrow>
        checkAnswer e s = Done (generateNextWord e (s\<lparr>inputValue := [], inputError := False\<rparr>))"
    unfolding chk by (simp add: handleWrongAnswer_unfold)
  have b6: "currentWords s = [] \<longrightarrow>
        checkAnswer e s = endGame e Win (s\<lparr>inputValue := [], inputError := False\<rparr>)"
    unfolding chk by (simp add: handleWrongAnswer_unfold)
  from handleEnterKey_pending [OF m, of "''Enter''" e]
  have k: "?k = s \<or> ?k = showInputError s" by auto
  have b8: "theWord ?k = theWord s" using k by (auto simp add: showInputError_def)
  have b9: "currentWords ?k = currentWords s" using k by (auto simp add: showInputError_def)
  have b10: "inputValue ?k = inputValue s" using k by (auto simp add: showInputError_def)
  have b11: "scoreGot ?k = scoreGot s" using k by (auto simp add: showInputError_def)
  have b12: "intervals ?k = intervals s" using k by (auto simp add: showInputError_def)
  have b13: "timeLeftSpan ?k = timeLeftSpan s" using k by (auto simp add: showInputError_def)
  show "(timeLeftSpan s = 1 \<longrightarrow>
        timerCallback e s =
          handleWrongAnswer e (clearInterval (currentTimer s) (s\<lparr>timeLeftSpan := 0\<rparr>))) \<and>
     checkAnswer e s = handleWrongAnswer e s \<and>
     scoreGot (state_of (checkAnswer e s)) = scoreGot s \<and>
     inputValue (state_of (checkAnswer e s)) = [] \<and>
     (currentWords s \<noteq> [] \<longrightarrow>
        checkAnswer e s = Done (generateNextWord e (s\<lparr>inputValue := [], inputError := False\<rparr>))) \<and>
     (currentWords s = [] \<longrightarrow>
        checkAnswer e s = endGame e Win (s\<lparr>inputValue := [], inputError := False\<rparr>)) \<and>
     handleCorrectAnswer e s = handleWrongAnswer e (incrementScore s) \<and>
     theWord ?k = theWord s \<and> currentWords ?k = currentWords s \<and>
     inputValue ?k = inputValue s \<and> scoreGot ?k = scoreGot s \<and>
     intervals ?k = intervals s \<and> timeLeftSpan ?k = timeLeftSpan s"
    by (intro conjI) (rule b1, rule chk, rule b3, rule b4, rule b5, rule b6,
        rule handleCorrect_is_wrong_after_increment, rule b8, rule b9, rule b10, rule b11,
        rule b12, rule b13)
qed

lemma lastSecond_facts:
  "toLowerCase (theWord lastSecond) \<noteq> toLowerCase (inputValue lastSecond)"
  "timeLeftSpan lastSecond = 1" "inputValue lastSecond = ''hel''" "theWord lastSecond = ''Hello''"
  "currentWords lastSecond \<noteq> []" "scoreGot lastSecond = 0" "intervals lastSecond = [0]"
  by code_simp+

text \<open>
  The claim as stated fails: with \<open>hel\<close> typed against \<open>Hello\<close> and one second left,
  the tick moves on to the next word and empties the input, while Enter keeps the word and
  the input.
\<close>

theorem C3_timeout_vs_enter_counterexample:
  "toLowerCase (theWord lastSecond) \<noteq> toLowerCase (inputValue lastSecond) \<and>
   theWord lastSecond = ''Hello'' \<and> inputValue lastSecond = ''hel'' \<and>
   theWord (state_of (step env0 (Tick 0) lastSecond)) = ''Code'' \<and>
   inputValue (state_of (step env0 (Tick 0) lastSecond)) = [] \<and>
   theWord (state_of (step env0 (KeyDown ''Enter'') lastSecond)) = ''Hello'' \<and>
   inputValue (state_of (step env0 (KeyDown ''Enter'') lastSecond)) = ''hel'' \<and>
   step env0 (Tick 0) lastSecond \<noteq> step env0 (KeyDown ''Enter'') lastSecond"
  by code_simp

theorem C3_timeout_witness:
  "toLowerCase (theWord lastSecond) \<noteq> toLowerCase (inputValue lastSecond) \<and>
   timeLeftSpan lastSecond = 1 \<and> currentWords lastSecond \<noteq> [] \<and>
   timerCallback env0 lastSecond =
     handleWrongAnswer env0 (clearInterval (currentTimer lastSecond) (lastSecond\<lparr>timeLeftSpan := 0\<rparr>)) \<and>
   scoreGot (state_of (checkAnswer env0 lastSecond)) = 0 \<and>
   checkAnswer env0 lastSecond =
     Done (generateNextWord env0 (lastSecond\<lparr>inputValue := [], inputError := False\<rparr>)) \<and>
   theWord (state_of (handleEnterKey ''Enter'' env0 lastSecond)) = ''Hello''"
proof -
  note t = C3_timeout_resolves_as_wrong [of lastSecond env0, THEN mp, OF lastSecond_facts(1)]
  note t1 = t [THEN conjunct1, THEN mp, OF lastSecond_facts(2)]
  note t3 = t [THEN conjunct2, THEN conjunct2, THEN conjunct1]
  note t5 = t [THEN conjunct2, THEN conjunct2, THEN conjunct2, THEN conjunct2, THEN conjunct1,
      THEN mp, OF lastSecond_facts(5)]
  note t8 = t [THEN conjunct2, THEN conjunct2, THEN conjunct2, THEN conjunct2, THEN conjunct2,
      THEN conjunct2, THEN conjunct2, THEN conjunct1]
  from t1 t3 t5 t8 lastSecond_facts show ?thesis by simp
qed

subsection \<open>Live timers\<close>

lemma at_most_current_live_iff:
  "at_most_current_live s \<longleftrightarrow> intervals s = [] \<or> (\<exists>i. intervals s = [i] \<and> currentTimer s = Some i)"
  by (auto simp add: at_most_current_live_def split: list.splits)

lemma intervals_after_clear:
  "at_most_current_live s \<Longrightarrow> intervals (clearInterval (currentTimer s) s) = []"
  by (auto simp add: at_most_current_live_iff clearInterval_fields split: option.splits)

lemma resolve_after_clear:
  assumes "intervals s = []"
  shows "at_most_current_live (state_of (handleCorrectAnswer e s))"
    and "at_most_current_live (state_of (handleWrongAnswer e s))"
  using assms
  by (simp_all add: at_most_current_live_iff handleCorrectAnswer_unfold handleWrongAnswer_unfold
      generateNextWord_fields endGame_fields)

lemma showInputError_live:
  "at_most_current_live (showInputError s) = at_most_current_live s"
  by (simp add: at_most_current_live_iff showInputError_def)

lemma handleEnterKey_live:
  assumes "at_most_current_live s"
  shows "at_most_current_live (state_of (handleEnterKey key e s))"
proof (cases "key = ''Enter'' \<and> toLowerCase (theWord s) = toLowerCase (inputValue s)")
  case True
  then have "handleEnterKey key e s = handleCorrectAnswer e (clearInterval (currentTimer s) s)"
    by (simp add: handleEnterKey_def Let_def)
  then show ?thesis
    using resolve_after_clear(1) [OF intervals_after_clear [OF assms]] by simp
next
  case False
  then have "handleEnterKey key e s = Done s \<or> handleEnterKey key e s = Done (showInputError s)"
    by (auto simp add: handleEnterKey_def Let_def)
  then show ?thesis using assms by (auto simp add: showInputError_live)
qed

lemma timerCallback_live:
  assumes "at_most_current_live s"
  shows "at_most_current_live (state_of (timerCallback e s))"
proof (cases "timeLeftSpan s - 1 = 0")
  case True
  let ?s1 = "s\<lparr>timeLeftSpan := timeLeftSpan s - 1\<rparr>"
  have l: "at_most_current_live ?s1"
    using assms by (simp add: at_most_current_live_iff)
  have c: "currentTimer ?s1 = currentTimer s" by simp
  have "timerCallback e s = checkAnswer e (clearInterval (currentTimer ?s1) ?s1)"
    using True by (simp add: timerCallback_def Let_def)
  moreover have "intervals (clearInterval (currentTimer ?s1) ?s1) = []"
    by (rule intervals_after_clear [OF l])
  ultimately show ?thesis
    using resolve_after_clear [of "clearInterval (currentTimer ?s1) ?s1" e]
    by (simp add: checkAnswer_def Let_def)
next
  case False
  then have "timerCallback e s = Done (s\<lparr>timeLeftSpan := timeLeftSpan s - 1\<rparr>)"
    by (simp add: timerCallback_def Let_def)
  then show ?thesis using assms by (simp add: at_most_current_live_iff)
qed

text \<open>
  C2 (as amended). \<open>startTimer\<close> cancels nothing: it adds a new live timer, makes it
  the current one and leaves every timer that was live before still live. The handlers
  that resolve a round cancel the current timer before the next one starts: if at most
  the current timer is live before a key press or before a tick of the timer callback,
  the same holds afterwards, and when the round is resolved with words left in the pool
  exactly the new timer is live. The click on Start and the tier-advance callback start
  a timer without cancelling: the new timer joins those that were live, and it is the
  only live one when none was live before.
\<close>

theorem C2_startTimer_cancels_nothing:
  "intervals (startTimer s) = intervals s @ [nextTimerId s] \<and>
   currentTimer (startTimer s) = Some (nextTimerId s) \<and>
   set (intervals s) \<subseteq> set (intervals (startTimer s)) \<and>
   (at_most_current_live s \<longrightarrow>
      at_most_current_live (state_of (handleEnterKey key e s)) \<and>
      at_most_current_live (state_of (timerCallback e s))) \<and>
   (at_most_current_live s \<and> currentWords s \<noteq> [] \<and>
    toLowerCase (theWord s) = toLowerCase (inputValue s) \<longrightarrow>
      intervals (state_of (handleEnterKey ''Enter'' e s)) = [nextTimerId s] \<and>
      currentTimer (state_of (handleEnterKey ''Enter'' e s)) = Some (nextTimerId s)) \<and>
   (at_most_current_live s \<and> currentWords s \<noteq> [] \<and> timeLeftSpan s = 1 \<longrightarrow>
      intervals (state_of (timerCallback e s)) = [nextTimerId s] \<and>
      currentTimer (state_of (timerCallback e s)) = Some (nextTimerId s)) \<and>
   intervals (handleStartGame e s) = intervals s @ [nextTimerId s] \<and>
   currentTimer (handleStartGame e s) = Some (nextTimerId s) \<and>
   intervals (advanceCallback t e s) = intervals s @ [nextTimerId s] \<and>
   currentTimer (advanceCallback t e s) = Some (nextTimerId s) \<and>
   (intervals s = [] \<longrightarrow>
      intervals (handleStartGame e s) = [nextTimerId s] \<and>
      intervals (advanceCallback t e s) = [nextTimerId s] \<and>
      at_most_current_live (handleStartGame e s) \<and>
      at_most_current_live (advanceCallback t e s))"
proof -
  have a: "intervals (startTimer s) = intervals s @ [nextTimerId s]"
    by (simp add: startTimer_def Let_def)
  have b: "currentTimer (startTimer s) = Some (nextTimerId s)"
    by (simp add: startTimer_def Let_def)
  have c: "set (intervals s) \<subseteq> set (intervals (startTimer s))"
    unfolding a by auto
  have d: "at_most_current_live s \<longrightarrow>
      at_most_current_live (state_of (handleEnterKey key e s)) \<and>
      at_most_current_live (state_of (timerCallback e s))"
    using handleEnterKey_live timerCallback_live by blast
  have d1: "at_most_current_live s \<and> currentWords s \<noteq> [] \<and>
    toLowerCase (theWord s) = toLowerCase (inputValue s) \<longrightarrow>
      intervals (state_of (handleEnterKey ''Enter'' e s)) = [nextTimerId s] \<and>
      currentTimer (state_of (handleEnterKey ''Enter'' e s)) = Some (nextTimerId s)"
  proof (rule impI)
    assume h: "at_most_current_live s \<and> currentWords s \<noteq> [] \<and>
      toLowerCase (theWord s) = toLowerCase (inputValue s)"
    let ?c = "clearInterval (currentTimer s) s"
    have i: "intervals ?c = []" using h by (simp add: intervals_after_clear)
    have "handleEnterKey ''Enter'' e s = handleCorrectAnswer e ?c"
      using h by (simp add: handleEnterKey_def Let_def)
    then show "intervals (state_of (handleEnterKey ''Enter'' e s)) = [nextTimerId s] \<and>
      currentTimer (state_of (handleEnterKey ''Enter'' e s)) = Some (nextTimerId s)"
      using h i
      by (simp add: handleCorrectAnswer_unfold generateNextWord_fields clearInterval_fields)
  qed
  have d2: "at_most_current_live s \<and> currentWords s \<noteq> [] \<and> timeLeftSpan s = 1 \<longrightarrow>
      intervals (state_of (timerCallback e s)) = [nextTimerId s] \<and>
      currentTimer (state_of (timerCallback e s)) = Some (nextTimerId s)"
  proof (rule impI)
    assume h: "at_most_current_live s \<and> currentWords s \<noteq> [] \<and> timeLeftSpan s = 1"
    let ?s1 = "s\<lparr>timeLeftSpan := timeLeftSpan s - 1\<rparr>"
    let ?c = "clearInterval (currentTimer ?s1) ?s1"
    have l: "at_most_current_live ?s1" using h by (simp add: at_most_current_live_iff)
    have i: "intervals ?c = []" by (rule intervals_after_clear [OF l])
    have w: "currentWords ?c \<noteq> []" "nextTimerId ?c = nextTimerId s"
      using h by (simp_all add: clearInterval_fields)
    have "timerCallback e s = checkAnswer e ?c"
      using h by (simp add: timerCallback_def Let_def)
    then have "timerCallback e s = handleCorrectAnswer e ?c \<or>
        timerCallback e s = handleWrongAnswer e ?c"
      by (simp add: checkAnswer_def Let_def)
    then show "intervals (state_of (timerCallback e s)) = [nextTimerId s] \<and>
      currentTimer (state_of (timerCallback e s)) = Some (nextTimerId s)"
      using i w
      by (auto simp add: handleCorrectAnswer_unfold handleWrongAnswer_unfold
          generateNextWord_fields)
  qed
  have f1: "intervals (handleStartGame e s) = intervals s @ [nextTimerId s]"
    by (simp add: handleStartGame_def generateNextWord_fields)
  have f2: "currentTimer (handleStartGame e s) = Some (nextTimerId s)"
    by (simp add: handleStartGame_def generateNextWord_fields)
  have f3: "intervals (advanceCallback t e s) = intervals s @ [nextTimerId s]"
    by (simp add: advanceCallback_fields)
  have f4: "currentTimer (advanceCallback t e s) = Some (nextTimerId s)"
    by (simp add: advanceCallback_fields)
  have f: "intervals s = [] \<longrightarrow>
      intervals (handleStartGame e s) = [nextTimerId s] \<and>
      intervals (advanceCallback t e s) = [nextTimerId s] \<and>
      at_most_current_live (handleStartGame e s) \<and>
      at_most_current_live (advanceCallback t e s)"
    by (simp add: at_most_current_live_iff f1 f2 f3 f4)
  show ?thesis
    by (intro conjI)
      (rule a, rule b, rule c, rule d, rule d1, rule d2, rule f1, rule f2, rule f3, rule f4,
        rule f)
qed

text \<open>
  The claim as stated fails: after Enter has started a round, timer 0 is live; the click
  on Start then calls \<open>startTimer\<close>, after which timers 0 and 1 are both live and a
  tick of timer 0 still counts the display down.
\<close>

theorem C2_two_live_timers_counterexample:
  "intervals startedByEnter = [0] \<and> currentTimer startedByEnter = Some 0 \<and>
   startButton startedByEnter \<and>
   intervals (startTimer startedByEnter) = [0, 1] \<and>
   intervals (state_of (step env0 ClickStart startedByEnter)) = [0, 1] \<and>
   timeLeftSpan (state_of (step env0 ClickStart startedByEnter)) = 8 \<and>
   timeLeftSpan (state_of (step env0 (Tick 0) (state_of (step env0 ClickStart startedByEnter)))) = 7"
  by code_simp

theorem C2_startTimer_witness:
  "at_most_current_live firstRound \<and> intervals firstRound = [0] \<and>
   at_most_current_live (state_of (handleEnterKey ''Enter'' env0 firstRound)) \<and>
   at_most_current_live (state_of (timerCallback env0 firstRound)) \<and>
   currentWords firstRound \<noteq> [] \<and> nextTimerId firstRound = 1 \<and>
   toLowerCase (theWord (firstRound\<lparr>inputValue := ''hello''\<rparr>)) = toLowerCase ''hello'' \<and>
   intervals (state_of (handleEnterKey ''Enter'' env0 (firstRound\<lparr>inputValue := ''hello''\<rparr>))) = [1] \<and>
   intervals (state_of (timerCallback env0 (firstRound\<lparr>timeLeftSpan := 1\<rparr>))) = [1] \<and>
   intervals page0 = [] \<and> nextTimerId page0 = 0 \<and>
   intervals (handleStartGame env0 page0) = [0] \<and>
   intervals (advanceCallback Normal env0 page0) = [0] \<and>
   at_most_current_live (handleStartGame env0 page0) \<and>
   at_most_current_live (advanceCallback Normal env0 page0)"
proof -
  let ?a = "firstRound\<lparr>inputValue := ''hello''\<rparr>"
  let ?b = "firstRound\<lparr>timeLeftSpan := 1\<rparr>"
  have h1: "at_most_current_live firstRound" by code_simp
  have h2: "intervals firstRound = [0]" by code_simp
  have h3: "intervals page0 = []" by code_simp
  have h4: "currentWords firstRound \<noteq> [] \<and> nextTimerId firstRound = 1" by code_simp
  have h5: "nextTimerId page0 = 0" by code_simp
  have ha: "at_most_current_live ?a \<and> currentWords ?a \<noteq> [] \<and>
      toLowerCase (theWord ?a) = toLowerCase (inputValue ?a)"
    by code_simp
  have hb: "at_most_current_live ?b \<and> currentWords ?b \<noteq> [] \<and> timeLeftSpan ?b = 1"
    by code_simp
  have na: "nextTimerId ?a = 1" "nextTimerId ?b = 1" by code_simp+
  note t = C2_startTimer_cancels_nothing [of firstRound "''Enter''" env0 Normal]
  note ta = C2_startTimer_cancels_nothing [of ?a "''Enter''" env0 Normal]
  note tb = C2_startTimer_cancels_nothing [of ?b "''Enter''" env0 Normal]
  note u = C2_startTimer_cancels_nothing [of page0 "''Enter''" env0 Normal]
  note t4 = t [THEN conjunct2, THEN conjunct2, THEN conjunct2, THEN conjunct1, THEN mp, OF h1]
  note ta5 = ta [THEN conjunct2, THEN conjunct2, THEN conjunct2, THEN conjunct2, THEN conjunct1,
      THEN mp, OF ha, THEN conjunct1]
  note tb6 = tb [THEN conjunct2, THEN conjunct2, THEN conjunct2, THEN conjunct2, THEN conjunct2,
      THEN conjunct1, THEN mp, OF hb, THEN conjunct1]
  note u11 = u [THEN conjunct2, THEN conjunct2, THEN conjunct2, THEN conjunct2, THEN conjunct2,
      THEN conjunct2, THEN conjunct2, THEN conjunct2, THEN conjunct2, THEN conjunct2,
      THEN mp, OF h3]
  have ra: "intervals (state_of (handleEnterKey ''Enter'' env0 ?a)) = [1]"
    using ta5 na(1) by simp
  have rb: "intervals (state_of (timerCallback env0 ?b)) = [1]"
    using tb6 na(2) by simp
  have ru: "intervals (handleStartGame env0 page0) = [0] \<and>
      intervals (advanceCallback Normal env0 page0) = [0] \<and>
      at_most_current_live (handleStartGame env0 page0) \<and>
      at_most_current_live (advanceCallback Normal env0 page0)"
    using u11 h5 by simp
  have lc: "toLowerCase (theWord ?a) = toLowerCase ''hello''" using ha by simp
  from h1 h2 t4 h4 lc ra rb h3 h5 ru show ?thesis by simp
qed

subsection \<open>Reading back what the game has stored\<close>

text \<open>
  The reader accepts what the printer writes for score entries: the decimal text of an
  integer is read as that number, the escaped body of a string as that string, an entry
  as that object and a list of entries as that array, with fuel to spare.
\<close>

lemma of_char_digit_char: "d < 10 \<Longrightarrow> (of_char (digit_char d) :: nat) = 48 + d"
  by (simp add: digit_char_def)

lemma is_digit_digit_char: "d < 10 \<Longrightarrow> is_digit (digit_char d)"
  by (simp add: is_digit_def of_char_digit_char)

lemma digit_char_neq:
  "d < 10 \<Longrightarrow> digit_char d \<noteq> CHR ''-''" "d < 10 \<Longrightarrow> digit_char d \<noteq> CHR 0x22"
  "d < 10 \<Longrightarrow> digit_char d \<noteq> CHR ''[''" "d < 10 \<Longrightarrow> digit_char d \<noteq> CHR ''{''"
  "d < 10 \<Longrightarrow> \<not> is_ws (digit_char d)"
  "0 < d \<Longrightarrow> d < 10 \<Longrightarrow> digit_char d \<noteq> CHR ''0''"
  using of_char_digit_char [of d]
  by (auto simp add: is_ws_def dest!: arg_cong [where f = "of_char :: char \<Rightarrow> nat"])

lemma show_nat_small: "n < 10 \<Longrightarrow> show_nat n = [digit_char n]"
  by (simp add: show_nat.simps)

lemma show_nat_large: "\<not> n < 10 \<Longrightarrow> show_nat n = show_nat (n div 10) @ [digit_char (n mod 10)]"
  by (subst show_nat.simps) simp

lemma show_nat_digits: "list_all is_digit (show_nat n)"
proof (induction n rule: show_nat.induct)
  case (1 n)
  show ?case
  proof (cases "n < 10")
    case True
    then show ?thesis by (simp add: show_nat_small is_digit_digit_char)
  next
    case False
    then show ?thesis using 1 by (simp add: show_nat_large is_digit_digit_char)
  qed
qed

lemma show_nat_nonempty: "show_nat n \<noteq> []"
  by (cases "n < 10") (simp_all add: show_nat_small show_nat_large)

lemma show_nat_hd: "0 < n \<Longrightarrow> hd (show_nat n) \<noteq> CHR ''0''"
proof (induction n rule: show_nat.induct)
  case (1 n)
  show ?case
  proof (cases "n < 10")
    case True
    then show ?thesis using 1(2) by (simp add: show_nat_small digit_char_neq)
  next
    case False
    then have "0 < n div 10" by simp
    with 1(1) False have "hd (show_nat (n div 10)) \<noteq> CHR ''0''" by simp
    then show ?thesis using False by (simp add: show_nat_large show_nat_nonempty)
  qed
qed

lemma not_digit_comma: "\<not> is_digit (CHR '','')"
  by code_simp

lemma digits_then_comma:
  assumes "list_all is_digit ds"
  shows "takeWhile is_digit (ds @ CHR '','' # r) = ds"
    and "dropWhile is_digit (ds @ CHR '','' # r) = CHR '','' # r"
  using assms by (induction ds) (simp_all add: not_digit_comma)

lemma digit_char_0: "digit_char 0 = CHR ''0''"
  by code_simp

lemma parse_integer_show_nat:
  "parse_integer (show_nat n @ CHR '','' # r) = Some (show_nat n, CHR '','' # r)"
proof (cases "n = 0")
  case True
  then show ?thesis by (simp add: show_nat_small digit_char_0 parse_integer_def)
next
  case False
  obtain d ds where sn: "show_nat n = d # ds"
    using show_nat_nonempty [of n] by (cases "show_nat n") auto
  have d0: "d \<noteq> CHR ''0''" using show_nat_hd [of n] False sn by simp
  have dd: "is_digit d" "list_all is_digit ds"
    using show_nat_digits [of n] sn by simp_all
  show ?thesis
    using d0 dd by (simp add: sn parse_integer_def digits_then_comma)
qed

lemma parse_tail_comma:
  "parse_fraction (CHR '','' # r) = Some ([], CHR '','' # r)"
  "parse_exponent (CHR '','' # r) = Some ([], CHR '','' # r)"
  by (simp_all add: parse_fraction_def parse_exponent_def)

lemma show_nat_hd_not_minus: "hd (show_nat n) \<noteq> CHR ''-''"
proof -
  obtain d ds where sn: "show_nat n = d # ds"
    using show_nat_nonempty [of n] by (cases "show_nat n") auto
  have "is_digit d" using show_nat_digits [of n] sn by simp
  moreover have "\<not> is_digit (CHR ''-'')" by code_simp
  ultimately show ?thesis using sn by auto
qed

lemma parse_number_show_int:
  "parse_number (show_int i @ CHR '','' # r) = Some (show_int i, CHR '','' # r)"
proof (cases "i < 0")
  case True
  then show ?thesis
    by (simp add: show_int_def parse_number_def parse_integer_show_nat parse_tail_comma)
next
  case False
  obtain d ds where sn: "show_nat (nat i) = d # ds"
    using show_nat_nonempty [of "nat i"] by (cases "show_nat (nat i)") auto
  have nm: "d \<noteq> CHR ''-''" using show_nat_hd_not_minus [of "nat i"] sn by simp
  have "parse_integer (d # ds @ CHR '','' # r) = Some (d # ds, CHR '','' # r)"
    using parse_integer_show_nat [of "nat i" r] sn by simp
  then show ?thesis
    using False nm by (simp add: show_int_def sn parse_number_def parse_tail_comma)
qed

lemma show_int_first:
  "\<exists>c cs. show_int i = c # cs \<and> (c = CHR ''-'' \<or> is_digit c)"
proof -
  obtain d ds where sn: "show_nat (nat (if i < 0 then - i else i)) = d # ds"
    using show_nat_nonempty by (cases "show_nat (nat (if i < 0 then - i else i))") auto
  have "is_digit d" using show_nat_digits [of "nat (if i < 0 then - i else i)"] sn by simp
  then show ?thesis using sn by (auto simp add: show_int_def)
qed

lemma is_hex_hex_digit: "d < 16 \<Longrightarrow> is_hex (hex_digit d)"
  by (auto simp add: is_hex_def hex_digit_def Let_def take_bit_nat_eq_self)

lemma is_hex_zero: "is_hex (CHR ''0'')"
  by code_simp

lemma parse_chars_escape_char:
  assumes "parse_chars t = Some (b, r)"
  shows "parse_chars (escape_char c @ t) = Some (escape_char c @ b, r)"
proof -
  let ?n = "of_char c :: nat"
  consider (quote) "c = CHR 0x22" | (backslash) "c = CHR 0x5C"
    | (short) "c \<noteq> CHR 0x22" "c \<noteq> CHR 0x5C" "?n = 8 \<or> ?n = 9 \<or> ?n = 10 \<or> ?n = 12 \<or> ?n = 13"
    | (hex) "c \<noteq> CHR 0x22" "c \<noteq> CHR 0x5C" "?n \<noteq> 8" "?n \<noteq> 9" "?n \<noteq> 10" "?n \<noteq> 12" "?n \<noteq> 13" "?n < 32"
    | (plain) "c \<noteq> CHR 0x22" "c \<noteq> CHR 0x5C" "\<not> ?n < 32"
    by fastforce
  then show ?thesis
  proof cases
    case quote
    then show ?thesis using assms by (simp add: escape_char_def)
  next
    case backslash
    then show ?thesis using assms by (simp add: escape_char_def)
  next
    case short
    then show ?thesis using assms by (auto simp add: escape_char_def Let_def)
  next
    case hex
    have "is_hex (hex_digit (?n div 16))" "is_hex (hex_digit (?n mod 16))"
      using hex(8) by (simp_all add: is_hex_hex_digit)
    then show ?thesis using assms hex
      by (simp add: escape_char_def Let_def is_hex_zero)
  next
    case plain
    then show ?thesis using assms by (auto simp add: escape_char_def Let_def)
  qed
qed

lemma parse_chars_escaped:
  "parse_chars (concat (map escape_char s) @ CHR 0x22 # r) = Some (concat (map escape_char s), r)"
proof (induction s)
  case Nil
  show ?case by simp
next
  case (Cons c s)
  from parse_chars_escape_char [OF Cons.IH, of c] show ?case by simp
qed

lemma skip_ws_Cons: "\<not> is_ws c \<Longrightarrow> skip_ws (c # cs) = c # cs"
  by (simp add: skip_ws_def)

lemma not_ws_marks:
  "\<not> is_ws (CHR 0x22)" "\<not> is_ws (CHR '':'')" "\<not> is_ws (CHR '','')" "\<not> is_ws (CHR ''}'')"
  "\<not> is_ws (CHR '']'')" "\<not> is_ws (CHR ''{'')" "\<not> is_ws (CHR ''['')" "\<not> is_ws (CHR ''-'')"
  by (simp_all add: is_ws_def)

lemma is_digit_marks:
  "is_digit c \<Longrightarrow> \<not> is_ws c" "is_digit c \<Longrightarrow> c \<noteq> CHR 0x22" "is_digit c \<Longrightarrow> c \<noteq> CHR ''[''"
  "is_digit c \<Longrightarrow> c \<noteq> CHR ''{''"
proof -
  have n: "\<not> is_digit (CHR 0x22)" "\<not> is_digit (CHR ''['')" "\<not> is_digit (CHR ''{'')"
    "\<not> is_digit (CHR 0x20)" "\<not> is_digit (CHR 0x09)" "\<not> is_digit (CHR 0x0A)"
    "\<not> is_digit (CHR 0x0D)"
    by code_simp+
  show "is_digit c \<Longrightarrow> \<not> is_ws c" "is_digit c \<Longrightarrow> c \<noteq> CHR 0x22"
    "is_digit c \<Longrightarrow> c \<noteq> CHR ''[''" "is_digit c \<Longrightarrow> c \<noteq> CHR ''{''"
    using n by (auto simp add: is_ws_def)
qed

lemma parse_value_number:
  "parse_value (Suc n) (show_int i @ CHR '','' # x) = Some (JNumber (show_int i), CHR '','' # x)"
proof -
  from show_int_first [of i] obtain c cs where
    sc: "show_int i = c # cs" and c: "c = CHR ''-'' \<or> is_digit c" by blast
  have nw: "\<not> is_ws c" "c \<noteq> CHR 0x22" "c \<noteq> CHR ''[''" "c \<noteq> CHR ''{''"
    using c is_digit_marks [of c] by (auto simp add: not_ws_marks)
  have pn: "parse_number (c # cs @ CHR '','' # x) = Some (c # cs, CHR '','' # x)"
    using parse_number_show_int [of i x] sc by simp
  show ?thesis
    using nw c pn by (simp add: sc skip_ws_Cons)
qed

lemma parse_value_string:
  "parse_value (Suc n) (CHR 0x22 # concat (map escape_char s) @ CHR 0x22 # x) =
     Some (JString (concat (map escape_char s)), x)"
  by (simp add: skip_ws_Cons not_ws_marks parse_chars_escaped)

lemma parse_key:
  "parse_chars (''score'' @ CHR 0x22 # t) = Some (''score'', t)"
  "parse_chars (''total'' @ CHR 0x22 # t) = Some (''total'', t)"
  "parse_chars (''level'' @ CHR 0x22 # t) = Some (''level'', t)"
  "parse_chars (''status'' @ CHR 0x22 # t) = Some (''status'', t)"
  "parse_chars (''date'' @ CHR 0x22 # t) = Some (''date'', t)"
proof -
  have k: "concat (map escape_char ''score'') = ''score''"
    "concat (map escape_char ''total'') = ''total''"
    "concat (map escape_char ''level'') = ''level''"
    "concat (map escape_char ''status'') = ''status''"
    "concat (map escape_char ''date'') = ''date''"
    by code_simp+
  show "parse_chars (''score'' @ CHR 0x22 # t) = Some (''score'', t)"
    using parse_chars_escaped [of "''score''" t] unfolding k .
  show "parse_chars (''total'' @ CHR 0x22 # t) = Some (''total'', t)"
    using parse_chars_escaped [of "''total''" t] unfolding k .
  show "parse_chars (''level'' @ CHR 0x22 # t) = Some (''level'', t)"
    using parse_chars_escaped [of "''level''" t] unfolding k .
  show "parse_chars (''status'' @ CHR 0x22 # t) = Some (''status'', t)"
    using parse_chars_escaped [of "''status''" t] unfolding k .
  show "parse_chars (''date'' @ CHR 0x22 # t) = Some (''date'', t)"
    using parse_chars_escaped [of "''date''" t] unfolding k .
qed

lemma parse_members_more:
  assumes "parse_chars t = Some (k, CHR '':'' # t2)"
    and "parse_value n t2 = Some (v, CHR '','' # t3)"
    and "parse_members n t3 = Some (ms, r)"
  shows "parse_members (Suc n) (CHR 0x22 # t) = Some ((k, v) # ms, r)"
  using assms by (simp add: skip_ws_Cons not_ws_marks)

lemma parse_members_last:
  assumes "parse_chars t = Some (k, CHR '':'' # t2)"
    and "parse_value n t2 = Some (v, CHR ''}'' # r)"
  shows "parse_members (Suc n) (CHR 0x22 # t) = Some ([(k, v)], r)"
  using assms by (simp add: skip_ws_Cons not_ws_marks)

lemma parse_value_object:
  assumes "parse_members n (CHR 0x22 # t) = Some (ms, r)"
  shows "parse_value (Suc n) (CHR ''{'' # CHR 0x22 # t) = Some (JObject ms, r)"
  using assms by (simp add: skip_ws_Cons not_ws_marks)

lemma entry_text:
  "JSON_stringify (scoreData e a b l st) =
     CHR ''{'' # CHR 0x22 # ''score'' @ CHR 0x22 # CHR '':'' # show_int a @
     CHR '','' # CHR 0x22 # ''total'' @ CHR 0x22 # CHR '':'' # show_int b @
     CHR '','' # CHR 0x22 # ''level'' @ CHR 0x22 # CHR '':'' #
        CHR 0x22 # concat (map escape_char (level_name l)) @
     CHR 0x22 # CHR '','' # CHR 0x22 # ''status'' @ CHR 0x22 # CHR '':'' #
        CHR 0x22 # concat (map escape_char (status_name st)) @
     CHR 0x22 # CHR '','' # CHR 0x22 # ''date'' @ CHR 0x22 # CHR '':'' #
        CHR 0x22 # concat (map escape_char (date_now e)) @ CHR 0x22 # ''}''"
  by (simp add: scoreData_def JSON_of_int_def JSON_of_string_def)

lemma parse_value_entry:
  "parse_value (Suc (Suc (Suc (Suc (Suc (Suc (Suc n)))))))
     (JSON_stringify (scoreData e a b l st) @ x) = Some (scoreData e a b l st, x)"
proof -
  let ?L = "concat (map escape_char (level_name l))"
  let ?S = "concat (map escape_char (status_name st))"
  let ?D = "concat (map escape_char (date_now e))"
  let ?t5 = "''date'' @ CHR 0x22 # CHR '':'' # CHR 0x22 # ?D @ CHR 0x22 # CHR ''}'' # x"
  let ?t4 = "''status'' @ CHR 0x22 # CHR '':'' # CHR 0x22 # ?S @ CHR 0x22 # CHR '','' # CHR 0x22 # ?t5"
  let ?t3 = "''level'' @ CHR 0x22 # CHR '':'' # CHR 0x22 # ?L @ CHR 0x22 # CHR '','' # CHR 0x22 # ?t4"
  let ?t2 = "''total'' @ CHR 0x22 # CHR '':'' # show_int b @ CHR '','' # CHR 0x22 # ?t3"
  let ?t1 = "''score'' @ CHR 0x22 # CHR '':'' # show_int a @ CHR '','' # CHR 0x22 # ?t2"
  have m5: "parse_members (Suc (Suc n)) (CHR 0x22 # ?t5) =
      Some ([(''date'', JString ?D)], x)"
    by (rule parse_members_last [OF parse_key(5) parse_value_string])
  have m4: "parse_members (Suc (Suc (Suc n))) (CHR 0x22 # ?t4) =
      Some ([(''status'', JString ?S), (''date'', JString ?D)], x)"
    by (rule parse_members_more [OF parse_key(4) parse_value_string m5])
  have m3: "parse_members (Suc (Suc (Suc (Suc n)))) (CHR 0x22 # ?t3) =
      Some ([(''level'', JString ?L), (''status'', JString ?S), (''date'', JString ?D)], x)"
    by (rule parse_members_more [OF parse_key(3) parse_value_string m4])
  have m2: "parse_members (Suc (Suc (Suc (Suc (Suc n))))) (CHR 0x22 # ?t2) =
      Some ([(''total'', JNumber (show_int b)), (''level'', JString ?L),
             (''status'', JString ?S), (''date'', JString ?D)], x)"
    by (rule parse_members_more [OF parse_key(2) parse_value_number m3])
  have m1: "parse_members (Suc (Suc (Suc (Suc (Suc (Suc n)))))) (CHR 0x22 # ?t1) =
      Some ([(''score'', JNumber (show_int a)), (''total'', JNumber (show_int b)),
             (''level'', JString ?L), (''status'', JString ?S), (''date'', JString ?D)], x)"
    by (rule parse_members_more [OF parse_key(1) parse_value_number m2])
  have "parse_value (Suc (Suc (Suc (Suc (Suc (Suc (Suc n))))))) (CHR ''{'' # CHR 0x22 # ?t1) =
      Some (JObject [(''score'', JNumber (show_int a)), (''total'', JNumber (show_int b)),
             (''level'', JString ?L), (''status'', JString ?S), (''date'', JString ?D)], x)"
    by (rule parse_value_object [OF m1])
  then show ?thesis
    by (simp add: entry_text scoreData_def JSON_of_int_def JSON_of_string_def del: parse_value.simps)
qed

lemma parse_value_entry_fuel:
  assumes "7 \<le> n"
  shows "parse_value n (JSON_stringify (entry_of x) @ r) = Some (entry_of x, r)"
proof -
  obtain e a b l st where x: "x = (e, a, b, l, st)" by (cases x)
  from assms have "n = Suc (Suc (Suc (Suc (Suc (Suc (Suc (n - 7)))))))" by simp
  then obtain m where "n = Suc (Suc (Suc (Suc (Suc (Suc (Suc m))))))" ..
  then show ?thesis
    using parse_value_entry [of m e a b l st r] by (simp add: x entry_of_def del: parse_value.simps)
qed

lemma entry_text_starts:
  "\<exists>t. JSON_stringify (entry_of x) = CHR ''{'' # t \<and> 8 \<le> length t"
proof -
  obtain e a b l st where x: "x = (e, a, b, l, st)" by (cases x)
  show ?thesis by (simp add: x entry_of_def entry_text)
qed

lemma parse_elements_entries:
  assumes "xs \<noteq> []" "length xs + 8 \<le> n"
  shows "parse_elements n (commas (map (\<lambda>x. JSON_stringify (entry_of x)) xs) @ CHR '']'' # r) =
     Some (map entry_of xs, r)"
  using assms
proof (induction xs arbitrary: n)
  case Nil
  then show ?case by simp
next
  case (Cons x xs)
  from Cons.prems(2) obtain m where n: "n = Suc m" and m: "length xs + 8 \<le> m"
    by (cases n) auto
  show ?case
  proof (cases xs)
    case Nil
    have "parse_value m (JSON_stringify (entry_of x) @ CHR '']'' # r) = Some (entry_of x, CHR '']'' # r)"
      using m by (intro parse_value_entry_fuel) simp
    then show ?thesis
      using Nil by (simp add: n skip_ws_Cons not_ws_marks del: parse_value.simps)
  next
    case (Cons y ys)
    let ?rest = "commas (map (\<lambda>x. JSON_stringify (entry_of x)) xs) @ CHR '']'' # r"
    have v: "parse_value m (JSON_stringify (entry_of x) @ CHR '','' # ?rest) =
        Some (entry_of x, CHR '','' # ?rest)"
      using m by (intro parse_value_entry_fuel) simp
    have ih: "parse_elements m ?rest = Some (map entry_of xs, r)"
      using Cons.IH [of m] m Cons by simp
    show ?thesis
      using v ih Cons
      by (simp add: n skip_ws_Cons not_ws_marks del: parse_value.simps)
  qed
qed

lemma commas_length:
  assumes "\<forall>t \<in> set ts. 9 \<le> length t"
  shows "9 * length ts \<le> length (commas ts)"
  using assms by (induction ts rule: commas.induct) auto

lemma JSON_parse_entries:
  "JSON_parse (JSON_stringify (JArray (map entry_of xs))) = Inr (JArray (map entry_of xs))"
proof (cases xs)
  case Nil
  show ?thesis unfolding Nil by code_simp
next
  case (Cons y ys)
  let ?ts = "map (\<lambda>x. JSON_stringify (entry_of x)) xs"
  let ?text = "CHR ''['' # commas ?ts @ '']''"
  have stx: "JSON_stringify (JArray (map entry_of xs)) = ?text"
    by (simp add: comp_def)
  have "9 \<le> length (JSON_stringify (entry_of x))" for x
    using entry_text_starts [of x] by auto
  then have "\<forall>t \<in> set ?ts. 9 \<le> length t" by auto
  then have "9 * length ?ts \<le> length (commas ?ts)" by (rule commas_length)
  then have len: "length xs + 8 \<le> length ?text - 1" using Cons by simp
  obtain t where t: "JSON_stringify (entry_of y) = CHR ''{'' # t"
    using entry_text_starts [of y] by blast
  have first: "\<exists>u. commas ?ts @ '']'' = CHR ''{'' # u"
    using Cons t by (cases ys) simp_all
  then obtain u where u: "commas ?ts @ '']'' = CHR ''{'' # u" by blast
  have pe: "parse_elements (length ?text) (commas ?ts @ '']'') = Some (map entry_of xs, [])"
    using parse_elements_entries [of xs "length ?text" "[]"] Cons len by simp
  have "parse_value (Suc (length ?text)) ?text = Some (JArray (map entry_of xs), [])"
    using pe u by (simp add: skip_ws_Cons not_ws_marks del: parse_elements.simps)
  then show ?thesis
    unfolding stx by (simp add: JSON_parse_def skip_ws_def del: parse_value.simps)
qed

lemma printed_number_show_int: "printed_number (show_int i)"
proof -
  let ?n = "nat (if i < 0 then - i else i)"
  obtain d ds where sn: "show_nat ?n = d # ds"
    using show_nat_nonempty [of ?n] by (cases "show_nat ?n") auto
  have dg: "is_digit d" "list_all is_digit ds"
    using show_nat_digits [of ?n] sn by simp_all
  have nm: "d \<noteq> CHR ''-''" using show_nat_hd_not_minus [of ?n] sn by simp
  show ?thesis
  proof (cases "i = 0")
    case True
    have "show_int 0 = ''0''" by (simp add: show_int_def show_nat_small digit_char_0)
    moreover have "printed_number ''0''" by code_simp
    ultimately show ?thesis using True by simp
  next
    case False
    then have "0 < ?n" by simp
    then have d0: "d \<noteq> CHR ''0''" using show_nat_hd [of ?n] sn by simp
    show ?thesis
    proof (cases "i < 0")
      case True
      then have "show_int i = CHR ''-'' # d # ds" using sn by (simp add: show_int_def)
      then show ?thesis using dg d0 by (simp add: printed_number_def)
    next
      case False
      then have "show_int i = d # ds" using sn by (simp add: show_int_def)
      then show ?thesis using dg d0 nm by (simp add: printed_number_def)
    qed
  qed
qed

lemma control_escape_member:
  assumes "n < 32" "n \<noteq> 8" "n \<noteq> 9" "n \<noteq> 10" "n \<noteq> 12" "n \<noteq> 13"
  shows "[CHR ''0'', CHR ''0'', hex_digit (n div 16), hex_digit (n mod 16)] \<in> set control_escapes"
proof -
  have "n \<in> set (filter (\<lambda>n. n \<notin> set [8, 9, 10, 12, 13]) [0..<32])"
    using assms by simp
  then show ?thesis
    unfolding control_escapes_def set_map by (rule imageI)
qed

lemma printed_body_escape_char: "printed_body (escape_char c @ t) = printed_body t"
proof -
  let ?n = "of_char c :: nat"
  consider (quote) "c = CHR 0x22" | (backslash) "c = CHR 0x5C"
    | (short) "c \<noteq> CHR 0x22" "c \<noteq> CHR 0x5C" "?n = 8 \<or> ?n = 9 \<or> ?n = 10 \<or> ?n = 12 \<or> ?n = 13"
    | (hex) "c \<noteq> CHR 0x22" "c \<noteq> CHR 0x5C" "?n \<noteq> 8" "?n \<noteq> 9" "?n \<noteq> 10" "?n \<noteq> 12" "?n \<noteq> 13" "?n < 32"
    | (plain) "c \<noteq> CHR 0x22" "c \<noteq> CHR 0x5C" "\<not> ?n < 32"
    by fastforce
  then show ?thesis
  proof cases
    case quote
    then show ?thesis by (simp add: escape_char_def)
  next
    case backslash
    then show ?thesis by (simp add: escape_char_def)
  next
    case short
    then show ?thesis by (auto simp add: escape_char_def Let_def)
  next
    case hex
    have "[CHR ''0'', CHR ''0'', hex_digit (?n div 16), hex_digit (?n mod 16)] \<in> set control_escapes"
      using hex by (intro control_escape_member) simp_all
    then show ?thesis using hex by (simp add: escape_char_def Let_def)
  next
    case plain
    then show ?thesis by (auto simp add: escape_char_def Let_def)
  qed
qed

lemma printed_body_escaped: "printed_body (concat (map escape_char s))"
  by (induction s) (simp_all add: printed_body_escape_char del: printed_body.simps(2))

lemma printed_entry_keys:
  "printed_key ''score''" "printed_key ''total''" "printed_key ''level''"
  "printed_key ''status''" "printed_key ''date''"
  by code_simp+

lemma printed_form_entry: "printed_form (entry_of x)"
proof -
  obtain e a b l st where x: "x = (e, a, b, l, st)" by (cases x)
  show ?thesis
    by (simp add: x entry_of_def scoreData_def JSON_of_int_def JSON_of_string_def
        printed_number_show_int printed_body_escaped printed_entry_keys)
qed

lemma printed_form_entries: "list_all printed_form (map entry_of xs)"
  by (induction xs) (simp_all add: printed_form_entry)

lemma stringify_array_nonempty: "JSON_stringify (JArray vs) \<noteq> []"
  by simp

lemma getScoreHistory_game_store:
  assumes "game_store xs (storage s)"
  shows "getScoreHistory s = Inr (JArray (map entry_of xs))"
proof (cases "storage s")
  case None
  with assms show ?thesis by (simp add: game_store_def getScoreHistory_def)
next
  case (Some t)
  with assms have t: "t = JSON_stringify (JArray (map entry_of xs))"
    by (simp add: game_store_def)
  then have "t \<noteq> []" using stringify_array_nonempty [of "map entry_of xs"] by simp
  then show ?thesis
    using Some JSON_parse_entries [of xs] unfolding t
    by (simp add: getScoreHistory_def del: JSON_stringify.simps)
qed

text \<open>
  C1 (as amended). Reading the score history returns the empty history when nothing is
  stored or the stored text is empty. For every store content that the game itself has
  written, reading returns the saved entries and does not raise, and \<open>saveScore\<close>
  appends exactly one entry and leaves a store of that kind. For any other non-empty
  stored text the result is that of \<open>JSON.parse\<close>: a text that is not valid JSON
  raises SyntaxError, in the read and in \<open>saveScore\<close>, which leaves the store as it
  was.
\<close>

theorem C1_reading_the_history:
  "(storage s = None \<or> storage s = Some [] \<longrightarrow> getScoreHistory s = Inr (JArray [])) \<and>
   (game_store xs (storage s) \<longrightarrow>
      getScoreHistory s = Inr (JArray (map entry_of xs)) \<and>
      saveScore e a b l st s =
        Done (s\<lparr>storage := Some (JSON_stringify (JArray (map entry_of (xs @ [(e, a, b, l, st)]))))\<rparr>) \<and>
      game_store (xs @ [(e, a, b, l, st)]) (storage (state_of (saveScore e a b l st s)))) \<and>
   (\<forall>t. storage s = Some t \<and> t \<noteq> [] \<longrightarrow> getScoreHistory s = JSON_parse t) \<and>
   (\<forall>t. storage s = Some t \<and> t \<noteq> [] \<and> JSON_parse t = Inl SyntaxError \<longrightarrow>
      getScoreHistory s = Inl SyntaxError \<and> saveScore e a b l st s = Raised SyntaxError s)"
proof -
  have c1: "storage s = None \<or> storage s = Some [] \<longrightarrow> getScoreHistory s = Inr (JArray [])"
    by (auto simp add: getScoreHistory_def)
  have c2: "game_store xs (storage s) \<longrightarrow>
      getScoreHistory s = Inr (JArray (map entry_of xs)) \<and>
      saveScore e a b l st s =
        Done (s\<lparr>storage := Some (JSON_stringify (JArray (map entry_of (xs @ [(e, a, b, l, st)]))))\<rparr>) \<and>
      game_store (xs @ [(e, a, b, l, st)]) (storage (state_of (saveScore e a b l st s)))"
  proof (rule impI)
    assume g: "game_store xs (storage s)"
    have r: "getScoreHistory s = Inr (JArray (map entry_of xs))"
      by (rule getScoreHistory_game_store [OF g])
    have sv: "saveScore e a b l st s =
        Done (s\<lparr>storage := Some (JSON_stringify (JArray (map entry_of (xs @ [(e, a, b, l, st)]))))\<rparr>)"
      using r printed_form_entries [of xs]
      by (simp add: saveScore_def entry_of_def del: JSON_stringify.simps)
    have gs: "game_store (xs @ [(e, a, b, l, st)]) (storage (state_of (saveScore e a b l st s)))"
      unfolding sv by (simp add: game_store_def del: JSON_stringify.simps)
    from r sv gs show "getScoreHistory s = Inr (JArray (map entry_of xs)) \<and>
      saveScore e a b l st s =
        Done (s\<lparr>storage := Some (JSON_stringify (JArray (map entry_of (xs @ [(e, a, b, l, st)]))))\<rparr>) \<and>
      game_store (xs @ [(e, a, b, l, st)]) (storage (state_of (saveScore e a b l st s)))"
      by (intro conjI)
  qed
  have c3: "\<forall>t. storage s = Some t \<and> t \<noteq> [] \<longrightarrow> getScoreHistory s = JSON_parse t"
    by (simp add: getScoreHistory_def)
  have c4: "\<forall>t. storage s = Some t \<and> t \<noteq> [] \<and> JSON_parse t = Inl SyntaxError \<longrightarrow>
      getScoreHistory s = Inl SyntaxError \<and> saveScore e a b l st s = Raised SyntaxError s"
    by (simp add: getScoreHistory_def saveScore_def)
  show ?thesis
    by (intro conjI) (rule c1, rule c2, rule c3, rule c4)
qed

text \<open>
  The claim as stated fails: with the stored text \<open>{score: 3}\<close>, which is not JSON,
  the read raises SyntaxError instead of returning the empty history.
\<close>

theorem C1_corrupt_store_counterexample:
  "storage corruptStore = Some ''{score: 3}'' \<and>
   JSON_parse ''{score: 3}'' = Inl SyntaxError \<and>
   getScoreHistory corruptStore = Inl SyntaxError \<and>
   getScoreHistory corruptStore \<noteq> Inr (JArray [])"
  by code_simp

theorem C1_reading_witness:
  "storage page0 = None \<and> getScoreHistory page0 = Inr (JArray []) \<and>
   game_store [] (storage page0) \<and>
   saveScore env0 0 30 Hard Win page0 =
     Done (page0\<lparr>storage := Some (JSON_stringify (JArray (map entry_of [(env0, 0, 30, Hard, Win)])))\<rparr>) \<and>
   game_store [(env0, 0, 30, Hard, Win)] (storage (state_of (saveScore env0 0 30 Hard Win page0))) \<and>
   getScoreHistory (state_of (saveScore env0 0 30 Hard Win page0)) =
     Inr (JArray (map entry_of [(env0, 0, 30, Hard, Win)])) \<and>
   storage corruptStore = Some ''{score: 3}'' \<and> ''{score: 3}'' \<noteq> [] \<and>
   JSON_parse ''{score: 3}'' = Inl SyntaxError \<and>
   saveScore env0 0 30 Hard Win corruptStore = Raised SyntaxError corruptStore"
proof -
  let ?s1 = "state_of (saveScore env0 0 30 Hard Win page0)"
  have n: "storage page0 = None" by code_simp
  then have n': "storage page0 = None \<or> storage page0 = Some []" by simp
  have g0: "game_store [] (storage page0)" using n by (simp add: game_store_def)
  note t = C1_reading_the_history [of page0 "[]" env0 0 30 Hard Win]
  note r0 = t [THEN conjunct1, THEN mp, OF n']
  note t2 = t [THEN conjunct2, THEN conjunct1, THEN mp, OF g0]
  have sv: "saveScore env0 0 30 Hard Win page0 =
     Done (page0\<lparr>storage := Some (JSON_stringify (JArray (map entry_of [(env0, 0, 30, Hard, Win)])))\<rparr>)"
    using t2 [THEN conjunct2, THEN conjunct1] by (simp del: JSON_stringify.simps)
  have g1: "game_store [(env0, 0, 30, Hard, Win)] (storage ?s1)"
    using t2 [THEN conjunct2, THEN conjunct2] by (simp del: JSON_stringify.simps)
  note u = C1_reading_the_history [of ?s1 "[(env0, 0, 30, Hard, Win)]" env0 0 30 Hard Win]
  note r1 = u [THEN conjunct2, THEN conjunct1, THEN mp, OF g1, THEN conjunct1]
  have c: "storage corruptStore = Some ''{score: 3}'' \<and> ''{score: 3}'' \<noteq> [] \<and>
     JSON_parse ''{score: 3}'' = Inl SyntaxError"
    by code_simp
  note v = C1_reading_the_history [of corruptStore "[]" env0 0 30 Hard Win]
  note v4 = v [THEN conjunct2, THEN conjunct2, THEN conjunct2, THEN spec, of "''{score: 3}''",
      THEN mp, OF c, THEN conjunct2]
  from n r0 g0 sv g1 r1 c v4 show ?thesis by (simp del: JSON_stringify.simps)
qed

subsection \<open>After the last tier\<close>

lemma blank_input_fields:
  "intervals (blank_input s) = intervals s"
  "storage (blank_input s) = storage s"
  "finishMessage (blank_input s) = finishMessage s"
  "scoreGot (blank_input s) = scoreGot s"
  "scoreTotal (blank_input s) = scoreTotal s"
  "currentWords (blank_input s) = currentWords s"
  "defaultLevelName (blank_input s) = defaultLevelName s"
  "theWord (blank_input s) = theWord s"
  "currentTimer (blank_input s) = currentTimer s"
  "timeLeftSpan (blank_input s) = timeLeftSpan s"
  by (simp_all add: blank_input_def)

lemma same_game_fields:
  assumes "same_game s s'"
  shows "intervals s' = intervals s" "storage s' = storage s"
    "finishMessage s' = finishMessage s" "scoreGot s' = scoreGot s"
    "scoreTotal s' = scoreTotal s" "currentWords s' = currentWords s"
    "defaultLevelName s' = defaultLevelName s" "theWord s' = theWord s"
    "currentTimer s' = currentTimer s" "timeLeftSpan s' = timeLeftSpan s"
proof -
  from assms have e: "blank_input s' = blank_input s" by (simp add: same_game_def)
  show "intervals s' = intervals s" using arg_cong [OF e, of intervals] by (simp add: blank_input_fields)
  show "storage s' = storage s" using arg_cong [OF e, of storage] by (simp add: blank_input_fields)
  show "finishMessage s' = finishMessage s" using arg_cong [OF e, of finishMessage] by (simp add: blank_input_fields)
  show "scoreGot s' = scoreGot s" using arg_cong [OF e, of scoreGot] by (simp add: blank_input_fields)
  show "scoreTotal s' = scoreTotal s" using arg_cong [OF e, of scoreTotal] by (simp add: blank_input_fields)
  show "currentWords s' = currentWords s" using arg_cong [OF e, of currentWords] by (simp add: blank_input_fields)
  show "defaultLevelName s' = defaultLevelName s" using arg_cong [OF e, of defaultLevelName] by (simp add: blank_input_fields)
  show "theWord s' = theWord s" using arg_cong [OF e, of theWord] by (simp add: blank_input_fields)
  show "currentTimer s' = currentTimer s" using arg_cong [OF e, of currentTimer] by (simp add: blank_input_fields)
  show "timeLeftSpan s' = timeLeftSpan s" using arg_cong [OF e, of timeLeftSpan] by (simp add: blank_input_fields)
qed

lemma same_game_refl: "same_game s s"
  by (simp add: same_game_def)

lemma same_game_trans: "same_game s s' \<Longrightarrow> same_game s' s'' \<Longrightarrow> same_game s s''"
  by (simp add: same_game_def)

lemma same_game_showInputError: "same_game s (showInputError s)"
  by (simp add: same_game_def blank_input_def showInputError_def)

lemma same_game_input: "same_game s (handleInputValidation (s\<lparr>inputValue := v\<rparr>))"
  by (simp add: same_game_def blank_input_def handleInputValidation_def showInputError_def
      resetInputError_def Let_def)

lemma same_game_quiet_step:
  assumes "intervals s = []" "quiet ev s"
  shows "same_game s (state_of (step e ev s))"
proof (cases ev)
  case (Input v)
  then show ?thesis using same_game_input [of s v] by (simp add: step_def)
next
  case (KeyDown key)
  with assms(2) have "handleEnterKey key e s = Done s \<or> handleEnterKey key e s = Done (showInputError s)"
    by (auto simp add: quiet_def handleEnterKey_def Let_def)
  then show ?thesis using KeyDown
    by (auto simp add: step_def same_game_refl same_game_showInputError)
next
  case (Tick i)
  then show ?thesis using assms(1) by (simp add: step_def same_game_refl)
next
  case (Timeout k)
  with assms(2) show ?thesis
    by (auto simp add: quiet_def step_def same_game_def blank_input_def Let_def)
next
  case (Change v)
  with assms(2) show ?thesis by (simp add: quiet_def)
next
  case ClickStart
  with assms(2) show ?thesis by (simp add: quiet_def)
qed

lemma same_game_quiet_run:
  assumes "intervals s = []" "quiet_run evs s"
  shows "same_game s (run evs s)"
  using assms
proof (induction evs arbitrary: s)
  case Nil
  then show ?case by (simp add: same_game_refl)
next
  case (Cons a evs)
  obtain e ev where a: "a = (e, ev)" by (cases a)
  let ?s1 = "state_of (step e ev s)"
  from Cons.prems a have q: "quiet ev s" and r: "quiet_run evs ?s1" by simp_all
  have s1: "same_game s ?s1" by (rule same_game_quiet_step [OF Cons.prems(1) q])
  then have "intervals ?s1 = []" using same_game_fields(1) [OF s1] Cons.prems(1) by simp
  from Cons.IH [OF this r] have "same_game ?s1 (run evs ?s1)" .
  with s1 show ?case using a by (auto intro: same_game_trans)
qed

lemma getScoreHistory_storage:
  "storage s' = storage s \<Longrightarrow> getScoreHistory s' = getScoreHistory s"
  by (simp add: getScoreHistory_def)

lemma endGame_Hard:
  assumes "defaultLevelName s = Hard" "game_store xs (storage s)"
  shows "endGame e Win s =
     Done (s\<lparr>finishMessage := finishMessage s @ [(''good'', AllLevelsCompleted)],
             upcomingAttached := False,
             storage := Some (JSON_stringify
               (JArray (map entry_of (xs @ [(e, scoreGot s, scoreTotal s, Hard, Win)]))))\<rparr>)"
proof -
  let ?s1 = "(displayEndMessage AllLevelsCompleted ''good'' s)\<lparr>upcomingAttached := False\<rparr>"
  have g: "game_store xs (storage ?s1)"
    using assms(2) by (simp add: displayEndMessage_def)
  have f: "scoreGot ?s1 = scoreGot s" "scoreTotal ?s1 = scoreTotal s"
    "defaultLevelName ?s1 = Hard"
    using assms(1) by (simp_all add: displayEndMessage_def)
  have "getScoreHistory ?s1 = Inr (JArray (map entry_of xs))"
    by (rule getScoreHistory_game_store [OF g])
  then have "saveGameScore e Win ?s1 =
      Done (?s1\<lparr>storage := Some (JSON_stringify
               (JArray (map entry_of (xs @ [(e, scoreGot s, scoreTotal s, Hard, Win)]))))\<rparr>)"
    using f printed_form_entries [of xs]
    by (simp add: saveGameScore_def saveScore_def entry_of_def del: JSON_stringify.simps)
  moreover have "endGame e Win s = saveGameScore e Win ?s1"
    using assms(1) by (simp add: endGame_def levelProgression_def Let_def)
  ultimately show ?thesis by (simp add: displayEndMessage_def del: JSON_stringify.simps)
qed

text \<open>
  C4 (as amended). When the round of the last word of the last tier (Hard) is resolved
  with the pool empty and a store that holds nothing or what the game itself has
  written, \<open>endGame\<close> appends exactly one score entry with outcome win and tier Hard,
  which the store then reads back after the earlier ones; it appends the completion
  message and detaches the list of upcoming words, starts no timer and schedules no
  timeout. From then on, with no timer live, every quiet run of events (ticks, edits of
  the input, Enter on an input that differs from the displayed word, removal of the
  error class) leaves the same game: the stored history, the messages, the score, the
  pool and the timers stay as they are.
\<close>

theorem C4_last_tier_completed:
  "defaultLevelName s = Hard \<and> currentWords s = [] \<and> game_store xs (storage s) \<longrightarrow>
     endGame e Win s =
       Done (s\<lparr>finishMessage := finishMessage s @ [(''good'', AllLevelsCompleted)],
               upcomingAttached := False,
               storage := Some (JSON_stringify
                 (JArray (map entry_of (xs @ [(e, scoreGot s, scoreTotal s, Hard, Win)]))))\<rparr>) \<and>
     game_store (xs @ [(e, scoreGot s, scoreTotal s, Hard, Win)]) (storage (state_of (endGame e Win s))) \<and>
     getScoreHistory (state_of (endGame e Win s)) =
       Inr (JArray (map entry_of (xs @ [(e, scoreGot s, scoreTotal s, Hard, Win)]))) \<and>
     handleWrongAnswer e s = endGame e Win (s\<lparr>inputValue := [], inputError := False\<rparr>) \<and>
     handleCorrectAnswer e s =
       endGame e Win (s\<lparr>inputValue := [], inputError := False, scoreGot := scoreGot s + 1\<rparr>) \<and>
     intervals (state_of (endGame e Win s)) = intervals s \<and>
     timeouts (state_of (endGame e Win s)) = timeouts s \<and>
     (intervals s = [] \<and> quiet_run evs (state_of (endGame e Win s)) \<longrightarrow>
        same_game (state_of (endGame e Win s)) (run evs (state_of (endGame e Win s))) \<and>
        storage (run evs (state_of (endGame e Win s))) = storage (state_of (endGame e Win s)) \<and>
        finishMessage (run evs (state_of (endGame e Win s))) = finishMessage (state_of (endGame e Win s)) \<and>
        scoreGot (run evs (state_of (endGame e Win s))) = scoreGot s \<and>
        currentWords (run evs (state_of (endGame e Win s))) = [] \<and>
        intervals (run evs (state_of (endGame e Win s))) = [])"
proof (rule impI)
  assume h: "defaultLevelName s = Hard \<and> currentWords s = [] \<and> game_store xs (storage s)"
  let ?w = "state_of (endGame e Win s)"
  let ?x = "(e, scoreGot s, scoreTotal s, Hard, Win)"
  have b1: "endGame e Win s =
       Done (s\<lparr>finishMessage := finishMessage s @ [(''good'', AllLevelsCompleted)],
               upcomingAttached := False,
               storage := Some (JSON_stringify (JArray (map entry_of (xs @ [?x]))))\<rparr>)"
    using h endGame_Hard [of s xs e] by simp
  have g1: "game_store (xs @ [?x]) (storage ?w)"
    unfolding b1 by (simp add: game_store_def del: JSON_stringify.simps)
  have g2: "getScoreHistory ?w = Inr (JArray (map entry_of (xs @ [?x])))"
    by (rule getScoreHistory_game_store [OF g1])
  have b2: "handleWrongAnswer e s = endGame e Win (s\<lparr>inputValue := [], inputError := False\<rparr>)"
    using h by (simp add: handleWrongAnswer_unfold)
  have b3: "handleCorrectAnswer e s =
       endGame e Win (s\<lparr>inputValue := [], inputError := False, scoreGot := scoreGot s + 1\<rparr>)"
    using h by (simp add: handleCorrectAnswer_unfold)
  have b4: "intervals ?w = intervals s"
    by (simp add: endGame_fields)
  have b5: "timeouts ?w = timeouts s"
    unfolding b1 by simp
  have b6: "intervals s = [] \<and> quiet_run evs ?w \<longrightarrow>
        same_game ?w (run evs ?w) \<and>
        storage (run evs ?w) = storage ?w \<and>
        finishMessage (run evs ?w) = finishMessage ?w \<and>
        scoreGot (run evs ?w) = scoreGot s \<and>
        currentWords (run evs ?w) = [] \<and>
        intervals (run evs ?w) = []"
  proof (rule impI)
    assume q: "intervals s = [] \<and> quiet_run evs ?w"
    then have i: "intervals ?w = []" using b4 by simp
    from q have r: "quiet_run evs ?w" by simp
    have sg: "same_game ?w (run evs ?w)"
      by (rule same_game_quiet_run [OF i r])
    have w: "scoreGot ?w = scoreGot s" "currentWords ?w = []"
      using h by (simp_all add: endGame_fields)
    show "same_game ?w (run evs ?w) \<and>
        storage (run evs ?w) = storage ?w \<and>
        finishMessage (run evs ?w) = finishMessage ?w \<and>
        scoreGot (run evs ?w) = scoreGot s \<and>
        currentWords (run evs ?w) = [] \<and>
        intervals (run evs ?w) = []"
      using sg same_game_fields [OF sg] i w by simp
  qed
  show "endGame e Win s =
       Done (s\<lparr>finishMessage := finishMessage s @ [(''good'', AllLevelsCompleted)],
               upcomingAttached := False,
               storage := Some (JSON_stringify
                 (JArray (map entry_of (xs @ [?x]))))\<rparr>) \<and>
     game_store (xs @ [?x]) (storage ?w) \<and>
     getScoreHistory ?w =
       Inr (JArray (map entry_of (xs @ [?x]))) \<and>
     handleWrongAnswer e s = endGame e Win (s\<lparr>inputValue := [], inputError := False\<rparr>) \<and>
     handleCorrectAnswer e s =
       endGame e Win (s\<lparr>inputValue := [], inputError := False, scoreGot := scoreGot s + 1\<rparr>) \<and>
     intervals ?w = intervals s \<and>
     timeouts ?w = timeouts s \<and>
     (intervals s = [] \<and> quiet_run evs ?w \<longrightarrow>
        same_game ?w (run evs ?w) \<and>
        storage (run evs ?w) = storage ?w \<and>
        finishMessage (run evs ?w) = finishMessage ?w \<and>
        scoreGot (run evs ?w) = scoreGot s \<and>
        currentWords (run evs ?w) = [] \<and>
        intervals (run evs ?w) = [])"
    by (intro conjI) (rule b1, rule g1, rule g2, rule b2, rule b3, rule b4, rule b5, rule b6)
qed

lemma lastHardSecond_result:
  "lastHardSecond =
     \<lparr>defaultLevelName = Hard, defaultLevelSeconds = 5, currentWords = [],
      currentTimer = Some 29, isFirstWord = False, startButton = False,
      levelSelect = Hard, lvlNameSpan = Hard, secondsSpan = 5,
      theWord = ''Performance'', upcomingWords = [], upcomingAttached = True,
      inputValue = [], inputError = False, timeLeftSpan = 1, scoreGot = 0,
      scoreTotal = 30, finishMessage = [], intervals = [29], nextTimerId = 30,
      timeouts = [], errorTones = 0, storage = None\<rparr>"
  by code_simp

lemma wonState_result:
  "wonState =
     \<lparr>defaultLevelName = Hard, defaultLevelSeconds = 5, currentWords = [],
      currentTimer = Some 29, isFirstWord = False, startButton = False,
      levelSelect = Hard, lvlNameSpan = Hard, secondsSpan = 5,
      theWord = ''Performance'', upcomingWords = [], upcomingAttached = False,
      inputValue = [], inputError = False, timeLeftSpan = 0, scoreGot = 0,
      scoreTotal = 30, finishMessage = [(''good'', AllLevelsCompleted)],
      intervals = [], nextTimerId = 30, timeouts = [], errorTones = 0,
      storage = Some (JSON_stringify (JArray [scoreData env0 0 30 Hard Win]))\<rparr>"
  unfolding wonState_def lastHardSecond_result by code_simp

text \<open>
  The claim as stated fails: the input field still accepts keystrokes after the win, and
  typing the displayed last word again and pressing Enter runs \<open>endGame\<close> once more
  (a second score entry, a second message, one more point).
\<close>

theorem C4_replay_after_win_counterexample:
  "defaultLevelName wonState = Hard \<and> currentWords wonState = [] \<and> intervals wonState = [] \<and>
   theWord wonState = ''Performance'' \<and> scoreGot wonState = 0 \<and>
   finishMessage wonState = [(''good'', AllLevelsCompleted)] \<and>
   storage wonState = Some (JSON_stringify (JArray [scoreData env0 0 30 Hard Win])) \<and>
   inputValue (run [(env0, Input ''P'')] wonState) = ''P'' \<and>
   scoreGot (run (typeWord env0 ''Performance'') wonState) = 1 \<and>
   finishMessage (run (typeWord env0 ''Performance'') wonState) =
     [(''good'', AllLevelsCompleted), (''good'', AllLevelsCompleted)] \<and>
   storage (run (typeWord env0 ''Performance'') wonState) =
     Some (JSON_stringify (JArray [scoreData env0 0 30 Hard Win, scoreData env0 1 30 Hard Win]))"
  unfolding wonState_result by code_simp

theorem C4_last_tier_witness:
  "defaultLevelName (clearInterval (currentTimer lastHardSecond) (lastHardSecond\<lparr>timeLeftSpan := 0\<rparr>)) = Hard \<and>
   currentWords (clearInterval (currentTimer lastHardSecond) (lastHardSecond\<lparr>timeLeftSpan := 0\<rparr>)) = [] \<and>
   game_store []
     (storage (clearInterval (currentTimer lastHardSecond) (lastHardSecond\<lparr>timeLeftSpan := 0\<rparr>))) \<and>
   intervals (clearInterval (currentTimer lastHardSecond) (lastHardSecond\<lparr>timeLeftSpan := 0\<rparr>)) = [] \<and>
   state_of (endGame env0 Win
     (clearInterval (currentTimer lastHardSecond) (lastHardSecond\<lparr>timeLeftSpan := 0\<rparr>))) = wonState \<and>
   getScoreHistory wonState = Inr (JArray (map entry_of [(env0, 0, 30, Hard, Win)])) \<and>
   quiet_run [(env0, Input ''x''), (env0, KeyDown ''Enter''), (env0, Tick 29)] wonState \<and>
   storage (run [(env0, Input ''x''), (env0, KeyDown ''Enter''), (env0, Tick 29)] wonState) =
     Some (JSON_stringify (JArray [scoreData env0 0 30 Hard Win]))"
proof -
  let ?s = "clearInterval (currentTimer lastHardSecond) (lastHardSecond\<lparr>timeLeftSpan := 0\<rparr>)"
  let ?evs = "[(env0, Input ''x''), (env0, KeyDown ''Enter''), (env0, Tick 29)]"
  have h0: "defaultLevelName ?s = Hard \<and> currentWords ?s = [] \<and> storage ?s = None"
    unfolding lastHardSecond_result by code_simp
  then have h: "defaultLevelName ?s = Hard \<and> currentWords ?s = [] \<and> game_store [] (storage ?s)"
    by (simp add: game_store_def)
  have i: "intervals ?s = []" unfolding lastHardSecond_result by code_simp
  have sc: "scoreGot ?s = 0 \<and> scoreTotal ?s = 30" unfolding lastHardSecond_result by code_simp
  note t = C4_last_tier_completed [of ?s "[]" env0 ?evs, THEN mp, OF h]
  have w: "state_of (endGame env0 Win ?s) = wonState"
    unfolding wonState_result lastHardSecond_result by code_simp
  have q: "quiet_run ?evs wonState" unfolding wonState_result by code_simp
  have iq: "intervals ?s = [] \<and> quiet_run ?evs (state_of (endGame env0 Win ?s))"
    using i q w by simp
  note t1 = t [THEN conjunct1]
  note t3 = t [THEN conjunct2, THEN conjunct2, THEN conjunct1]
  note t8 = t [THEN conjunct2, THEN conjunct2, THEN conjunct2, THEN conjunct2, THEN conjunct2,
      THEN conjunct2, THEN conjunct2, THEN mp, OF iq]
  have r: "getScoreHistory wonState = Inr (JArray (map entry_of [(env0, 0, 30, Hard, Win)]))"
    using t3 sc w by simp
  from t8 have "storage (run ?evs (state_of (endGame env0 Win ?s))) =
      storage (state_of (endGame env0 Win ?s))"
    by simp
  moreover from t1 sc have "storage (state_of (endGame env0 Win ?s)) =
     Some (JSON_stringify (JArray [scoreData env0 0 30 Hard Win]))"
    by (simp add: entry_of_def del: JSON_stringify.simps)
  ultimately have "storage (run ?evs wonState) =
     Some (JSON_stringify (JArray [scoreData env0 0 30 Hard Win]))"
    using w by simp
  with h i w q r show ?thesis by (simp del: JSON_stringify.simps)
qed

subsection \<open>Selecting from an empty pool\<close>

lemma wonUnstarted_result:
  "wonUnstarted =
     \<lparr>defaultLevelName = Hard, defaultLevelSeconds = 5, currentWords = [],
      currentTimer = Some 29, isFirstWord = False, startButton = True,
      levelSelect = Hard, lvlNameSpan = Hard, secondsSpan = 5,
      theWord = ''Performance'', upcomingWords = [], upcomingAttached = False,
      inputValue = [], inputError = False, timeLeftSpan = 0, scoreGot = 1,
      scoreTotal = 30, finishMessage = [(''good'', AllLevelsCompleted)],
      intervals = [], nextTimerId = 30, timeouts = [], errorTones = 0,
      storage = Some (JSON_stringify (JArray [scoreData env0 1 30 Hard Win]))\<rparr>"
  by code_simp

text \<open>
  C10. The calls of \<open>getRandomWord\<close> from the answer handlers are guarded by a
  non-empty pool, but the call from the click on Start is not: when Enter has started the
  rounds on a page whose word element is empty, the whole tier can be played while the
  start button is still there, and the click then selects from the empty pool. The index
  is 0, the selected word is undefined and the word shown is the text \<open>undefined\<close>.
\<close>

theorem C10_start_on_empty_pool:
  "startButton wonUnstarted \<and> currentWords wonUnstarted = [] \<and>
   fst (getRandomWord env0 (wonUnstarted\<lparr>startButton := False, isFirstWord := True\<rparr>)) = None \<and>
   step env0 ClickStart wonUnstarted = Done (handleStartGame env0 wonUnstarted) \<and>
   theWord (handleStartGame env0 wonUnstarted) = ''undefined''"
  unfolding wonUnstarted_result by code_simp

subsection \<open>Cumulative total\<close>

lemma playEasy_result:
  "run playEasy page0 =
     \<lparr>defaultLevelName = Easy, defaultLevelSeconds = 5, currentWords = [],
      currentTimer = Some 29, isFirstWord = False, startButton = False, levelSelect = Easy,
      lvlNameSpan = Easy, secondsSpan = 5, theWord = ''Edit'', upcomingWords = [],
      upcomingAttached = True, inputValue = [], inputError = False, timeLeftSpan = 5,
      scoreGot = 30, scoreTotal = 30, finishMessage = [(''good'', LevelComplete Normal)],
      intervals = [], nextTimerId = 30, timeouts = [AdvanceLevel Normal], errorTones = 0,
      storage = Some (JSON_stringify (JArray [scoreData env0 30 30 Easy Win]))\<rparr>"
  by code_simp

lemma handleLevelChange_total:
  "scoreTotal (handleLevelChange t s) = int (length (wordsByLevel t))"
  by (simp add: handleLevelChange_def updateUIForLevel_fields Let_def)

text \<open>
  C5. \<open>updateUIForLevel\<close> for tier \<open>t\<close> sets the total to the number of words of
  \<open>t\<close> when \<open>keepScore\<close> is false (as at initialization and at a change of the level
  select) and adds that number to the prior total when it is true (as in the tier-advance
  callback). Easy has 30 words and Normal 32: on the page as loaded the total is 30; a
  player who types all 30 Easy words correctly ends the tier with score 30 of 30, one
  stored entry and the advance to Normal pending, and the advance makes the total 62.
\<close>

theorem C5_cumulative_total:
  "scoreTotal (updateUIForLevel t sec False s) = int (length (wordsByLevel t)) \<and>
   scoreTotal (updateUIForLevel t sec True s) = scoreTotal s + int (length (wordsByLevel t)) \<and>
   scoreTotal (initializeGame s) = int (length (wordsByLevel (defaultLevelName s))) \<and>
   scoreTotal (handleLevelChange t s) = int (length (wordsByLevel t)) \<and>
   scoreTotal (advanceCallback t e s) = scoreTotal s + int (length (wordsByLevel t)) \<and>
   length (wordsByLevel Easy) = 30 \<and> length (wordsByLevel Normal) = 32 \<and>
   scoreTotal page0 = 30 \<and>
   scoreGot (run playEasy page0) = 30 \<and> scoreTotal (run playEasy page0) = 30 \<and>
   storage (run playEasy page0) = Some (JSON_stringify (JArray [scoreData env0 30 30 Easy Win])) \<and>
   timeouts (run playEasy page0) = [AdvanceLevel Normal] \<and>
   defaultLevelName (run (playEasy @ [(env0, Timeout 0)]) page0) = Normal \<and>
   scoreTotal (run (playEasy @ [(env0, Timeout 0)]) page0) = 62"
proof -
  have a: "scoreTotal (updateUIForLevel t sec False s) = int (length (wordsByLevel t))"
    by (simp add: updateUIForLevel_fields)
  have b: "scoreTotal (updateUIForLevel t sec True s) = scoreTotal s + int (length (wordsByLevel t))"
    by (simp add: updateUIForLevel_fields)
  have c: "scoreTotal (initializeGame s) = int (length (wordsByLevel (defaultLevelName s)))"
    by (simp add: initializeGame_def updateUIForLevel_fields)
  have d: "scoreTotal (advanceCallback t e s) = scoreTotal s + int (length (wordsByLevel t))"
    by (simp add: advanceCallback_fields)
  have f: "length (wordsByLevel Easy) = 30" by simp
  have g: "length (wordsByLevel Normal) = 32" by simp
  have h: "scoreTotal page0 = 30" by code_simp
  have i: "scoreGot (run playEasy page0) = 30" unfolding playEasy_result by simp
  have j: "scoreTotal (run playEasy page0) = 30" unfolding playEasy_result by simp
  have k: "storage (run playEasy page0) =
      Some (JSON_stringify (JArray [scoreData env0 30 30 Easy Win]))"
    unfolding playEasy_result by simp
  have l: "timeouts (run playEasy page0) = [AdvanceLevel Normal]"
    unfolding playEasy_result by simp
  have m: "defaultLevelName (run (playEasy @ [(env0, Timeout 0)]) page0) = Normal"
    unfolding run_append playEasy_result by (simp add: step_def advanceCallback_fields)
  have n: "scoreTotal (run (playEasy @ [(env0, Timeout 0)]) page0) = 62"
    unfolding run_append playEasy_result by (simp add: step_def advanceCallback_fields)
  show ?thesis
    by (intro conjI)
      (rule a, rule b, rule c, rule handleLevelChange_total, rule d, rule f, rule g, rule h,
        rule i, rule j, rule k, rule l, rule m, rule n)
qed

end
